theory Spec2Isabelle
  imports Complex_Main "HOL-Library.Word"
begin

section \<open>Device scalars\<close>

text \<open>
  The kernels of \<^verbatim>\<open>yoloForward.cu\<close> and of the region kernel file compute on
  \<^verbatim>\<open>uint\<close> (32-bit unsigned, modelled as \<open>32 word\<close>), on \<^verbatim>\<open>int\<close> and on \<^verbatim>\<open>float\<close>.

  A \<^verbatim>\<open>float\<close> is modelled by the value it denotes: a real number inside the binary32
  range, one of the two infinities, or NaN. An arithmetic result whose magnitude
  reaches \<open>2^128 - 2^103\<close> (the least magnitude that round-to-nearest sends to
  infinity) becomes an infinity. Rounding of the significand to 24 bits, subnormal
  flushing and the sign of zero are not modelled: inside the range the operations
  are the exact real ones.
\<close>

type_synonym uint = "32 word"

datatype f32 = Fin real | PInf | NInf | NaN

definition F32_OVERFLOW :: real where
  "F32_OVERFLOW = 2 ^ 128 - 2 ^ 103"

definition f32_range :: "real \<Rightarrow> f32" where
  "f32_range r =
     (if F32_OVERFLOW \<le> r then PInf
      else if r \<le> - F32_OVERFLOW then NInf
      else Fin r)"

fun f32_neg :: "f32 \<Rightarrow> f32" where
  "f32_neg (Fin a) = Fin (- a)"
| "f32_neg PInf = NInf"
| "f32_neg NInf = PInf"
| "f32_neg NaN = NaN"

fun f32_add :: "f32 \<Rightarrow> f32 \<Rightarrow> f32" where
  "f32_add (Fin a) (Fin b) = f32_range (a + b)"
| "f32_add NaN _ = NaN"
| "f32_add _ NaN = NaN"
| "f32_add PInf NInf = NaN"
| "f32_add NInf PInf = NaN"
| "f32_add PInf _ = PInf"
| "f32_add _ PInf = PInf"
| "f32_add NInf _ = NInf"
| "f32_add _ NInf = NInf"

fun f32_inf_sign :: "bool \<Rightarrow> f32" where
  "f32_inf_sign True = PInf"
| "f32_inf_sign False = NInf"

fun f32_mul :: "f32 \<Rightarrow> f32 \<Rightarrow> f32" where
  "f32_mul (Fin a) (Fin b) = f32_range (a * b)"
| "f32_mul NaN _ = NaN"
| "f32_mul _ NaN = NaN"
| "f32_mul PInf (Fin b) = (if b = 0 then NaN else f32_inf_sign (0 < b))"
| "f32_mul NInf (Fin b) = (if b = 0 then NaN else f32_inf_sign (b < 0))"
| "f32_mul (Fin a) PInf = (if a = 0 then NaN else f32_inf_sign (0 < a))"
| "f32_mul (Fin a) NInf = (if a = 0 then NaN else f32_inf_sign (a < 0))"
| "f32_mul PInf PInf = PInf"
| "f32_mul NInf NInf = PInf"
| "f32_mul PInf NInf = NInf"
| "f32_mul NInf PInf = NInf"

fun f32_div :: "f32 \<Rightarrow> f32 \<Rightarrow> f32" where
  "f32_div (Fin a) (Fin b) =
     (if b = 0 then (if a = 0 then NaN else f32_inf_sign (0 < a))
      else f32_range (a / b))"
| "f32_div NaN _ = NaN"
| "f32_div _ NaN = NaN"
| "f32_div (Fin a) PInf = Fin 0"
| "f32_div (Fin a) NInf = Fin 0"
| "f32_div PInf (Fin b) = f32_inf_sign (0 \<le> b)"
| "f32_div NInf (Fin b) = f32_inf_sign (b < 0)"
| "f32_div PInf PInf = NaN"
| "f32_div PInf NInf = NaN"
| "f32_div NInf PInf = NaN"
| "f32_div NInf NInf = NaN"

fun f32_less :: "f32 \<Rightarrow> f32 \<Rightarrow> bool" where
  "f32_less (Fin a) (Fin b) = (a < b)"
| "f32_less NaN _ = False"
| "f32_less _ NaN = False"
| "f32_less _ NInf = False"
| "f32_less PInf _ = False"
| "f32_less NInf _ = True"
| "f32_less _ PInf = True"

instantiation f32 :: "{zero,one,plus,minus,uminus,times,inverse,ord}"
begin

definition zero_f32 :: f32 where "zero_f32 = Fin 0"
definition one_f32 :: f32 where "one_f32 = Fin 1"
definition plus_f32 :: "f32 \<Rightarrow> f32 \<Rightarrow> f32" where "plus_f32 = f32_add"
definition uminus_f32 :: "f32 \<Rightarrow> f32" where "uminus_f32 = f32_neg"
definition minus_f32 :: "f32 \<Rightarrow> f32 \<Rightarrow> f32" where "minus_f32 a b = f32_add a (f32_neg b)"
definition times_f32 :: "f32 \<Rightarrow> f32 \<Rightarrow> f32" where "times_f32 = f32_mul"
definition divide_f32 :: "f32 \<Rightarrow> f32 \<Rightarrow> f32" where "divide_f32 = f32_div"
definition inverse_f32 :: "f32 \<Rightarrow> f32" where "inverse_f32 a = f32_div (Fin 1) a"
definition less_f32 :: "f32 \<Rightarrow> f32 \<Rightarrow> bool" where "less_f32 = f32_less"
definition less_eq_f32 :: "f32 \<Rightarrow> f32 \<Rightarrow> bool" where
  "less_eq_f32 a b = (f32_less a b \<or> (a = b \<and> a \<noteq> NaN))"

instance ..

end

text \<open>
  \<^verbatim>\<open>__expf\<close>, the device intrinsic: the exponential, infinite as soon as it leaves
  the binary32 range.
\<close>

fun expf :: "f32 \<Rightarrow> f32" where
  "expf (Fin a) = f32_range (exp a)"
| "expf PInf = PInf"
| "expf NInf = Fin 0"
| "expf NaN = NaN"

text \<open>Conversion of a \<^verbatim>\<open>uint\<close> and of an \<^verbatim>\<open>int\<close> operand to \<^verbatim>\<open>float\<close>.\<close>

definition f32_of_uint :: "uint \<Rightarrow> f32" where
  "f32_of_uint u = Fin (real (unat u))"

definition f32_of_int :: "int \<Rightarrow> f32" where
  "f32_of_int k = Fin (real_of_int k)"

text \<open>
  Conversion of a \<^verbatim>\<open>float\<close> to \<^verbatim>\<open>int\<close>, as the device's conversion instruction does
  it: towards zero, saturating at the ends of the \<^verbatim>\<open>int\<close> range, NaN to 0.
\<close>

definition trunc_real :: "real \<Rightarrow> int" where
  "trunc_real r = (if 0 \<le> r then \<lfloor>r\<rfloor> else \<lceil>r\<rceil>)"

fun int_of_f32 :: "f32 \<Rightarrow> int" where
  "int_of_f32 (Fin a) = max (- (2 ^ 31)) (min (2 ^ 31 - 1) (trunc_real a))"
| "int_of_f32 PInf = 2 ^ 31 - 1"
| "int_of_f32 NInf = - (2 ^ 31)"
| "int_of_f32 NaN = 0"

section \<open>The detection-decode kernels\<close>

text \<open>\<^verbatim>\<open>sigmoidGPU\<close>: \<^verbatim>\<open>1.0f / (1.0f + __expf(-x))\<close>.\<close>

definition sigmoidGPU :: "f32 \<Rightarrow> f32" where
  "sigmoidGPU x = 1 / (1 + expf (- x))"

text \<open>
  The output buffers of one batch element and its detection counter. The buffers are
  device memory addressed by an \<^verbatim>\<open>int\<close> offset; the kernels check no bound. The
  counter and the offsets \<^verbatim>\<open>count * 4 + k\<close> and \<^verbatim>\<open>mask[z_id] * 2\<close> are unbounded
  integers here: the overflow of an \<^verbatim>\<open>int\<close>, which a counter beyond \<open>2^29\<close> records
  would need, is not modelled.
\<close>

record outputs =
  countData :: int
  d_indexes :: "int \<Rightarrow> int"
  d_scores :: "int \<Rightarrow> f32"
  d_boxes :: "int \<Rightarrow> f32"
  d_classes :: "int \<Rightarrow> int"

text \<open>
  The offset \<^verbatim>\<open>bbindex + numGridCells * (z_id * (5 + numOutputClasses) + k)\<close> of channel
  \<open>k\<close> of anchor \<open>z_id\<close> at cell \<open>(x_id, y_id)\<close>. Its operands mix \<^verbatim>\<open>int\<close> and
  \<^verbatim>\<open>uint\<close>, so C++ evaluates it in \<^verbatim>\<open>uint\<close>.
\<close>

definition chan_index :: "uint \<Rightarrow> uint \<Rightarrow> uint \<Rightarrow> uint \<Rightarrow> uint \<Rightarrow> uint \<Rightarrow> uint \<Rightarrow> uint" where
  "chan_index gridSizeX gridSizeY numOutputClasses x_id y_id z_id k =
     (let numGridCells = gridSizeX * gridSizeY;
          bbindex = y_id * gridSizeX + x_id
      in bbindex + numGridCells * (z_id * (5 + numOutputClasses) + k))"

text \<open>
  The scan for the best class, shared by both kernels: \<^verbatim>\<open>maxProb = 0.0f\<close>,
  \<^verbatim>\<open>maxIndex = -1\<close>, and class \<open>i\<close> replaces the pair when \<^verbatim>\<open>prob > maxProb\<close>.
  \<open>prob i\<close> is the probability the kernel computes for class \<open>i\<close>.
\<close>

definition class_step :: "(uint \<Rightarrow> f32) \<Rightarrow> nat \<Rightarrow> f32 \<times> int \<Rightarrow> f32 \<times> int" where
  "class_step prob i acc =
     (if fst acc < prob (of_nat i) then (prob (of_nat i), sint (of_nat i :: uint)) else acc)"

definition class_scan :: "(uint \<Rightarrow> f32) \<Rightarrow> uint \<Rightarrow> f32 \<times> int" where
  "class_scan prob numOutputClasses =
     fold (class_step prob) [0 ..< unat numOutputClasses] (Fin 0, - 1)"

text \<open>The last seven statements of both kernels: the record written at slot \<open>count\<close>.\<close>

definition emit :: "int \<Rightarrow> f32 \<Rightarrow> f32 \<Rightarrow> int \<Rightarrow> f32 \<Rightarrow> f32 \<Rightarrow> f32 \<Rightarrow> f32 \<Rightarrow> outputs \<Rightarrow> outputs" where
  "emit count objectness maxProb maxIndex x y w h st =
     st\<lparr> d_indexes := (d_indexes st)(count := count),
         d_scores := (d_scores st)(count := objectness * maxProb + 1),
         d_boxes := (d_boxes st)
           (count * 4 + 0 := x - Fin (1/2) * w,
            count * 4 + 1 := y - Fin (1/2) * h,
            count * 4 + 2 := x + Fin (1/2) * w,
            count * 4 + 3 := y + Fin (1/2) * h),
         d_classes := (d_classes st)(count := maxIndex) \<rparr>"

text \<open>
  \<^verbatim>\<open>gpuYoloLayer\<close>, one thread: \<open>x_id\<close>, \<open>y_id\<close>, \<open>z_id\<close> are the thread's coordinates
  and \<open>msk\<close> is the array \<^verbatim>\<open>mask\<close>.
  \<^verbatim>\<open>atomicAdd(&countData[0], 1)\<close> returns the old counter and increments it.
\<close>

definition gpuYoloLayer ::
  "(uint \<Rightarrow> f32) \<Rightarrow> f32 \<Rightarrow> uint \<Rightarrow> uint \<Rightarrow> uint \<Rightarrow> uint \<Rightarrow> uint \<Rightarrow> uint \<Rightarrow> f32 \<Rightarrow>
   (int \<Rightarrow> f32) \<Rightarrow> (uint \<Rightarrow> int) \<Rightarrow> uint \<Rightarrow> uint \<Rightarrow> uint \<Rightarrow> outputs \<Rightarrow> outputs" where
  "gpuYoloLayer input scoreThreshold netWidth netHeight gridSizeX gridSizeY
       numOutputClasses numBBoxes scaleXY anchors msk x_id y_id z_id st =
     (if gridSizeX \<le> x_id \<or> gridSizeY \<le> y_id \<or> numBBoxes \<le> z_id then st
      else
        let ch = (\<lambda>k. input (chan_index gridSizeX gridSizeY numOutputClasses x_id y_id z_id k));
            objectness = sigmoidGPU (ch 4)
        in if objectness < scoreThreshold then st
           else
             let count = countData st;
                 st1 = st\<lparr>countData := countData st + 1\<rparr>;
                 alpha = scaleXY;
                 beta = Fin (- (1/2)) * (scaleXY - 1);
                 x = (sigmoidGPU (ch 0) * alpha + beta + f32_of_uint x_id)
                       * f32_of_uint netWidth / f32_of_uint gridSizeX;
                 y = (sigmoidGPU (ch 1) * alpha + beta + f32_of_uint y_id)
                       * f32_of_uint netHeight / f32_of_uint gridSizeY;
                 w = expf (ch 2) * anchors (msk z_id * 2);
                 h = expf (ch 3) * anchors (msk z_id * 2 + 1);
                 best = class_scan (\<lambda>i. sigmoidGPU (ch (5 + i))) numOutputClasses
             in emit count objectness (fst best) (snd best) x y w h st1)"

text \<open>
  \<^verbatim>\<open>softmaxGPU\<close>. The offset of class \<open>i\<close> is
  \<^verbatim>\<open>bbindex + numGridCells * (z_id * (5 + numOutputClasses) + (5 + i))\<close>. The first loop
  reads each logit into \<^verbatim>\<open>int val\<close> and keeps the greatest \<^verbatim>\<open>val\<close> in the
  \<^verbatim>\<open>float largest\<close>, which starts at \<^verbatim>\<open>-INFINITY\<close>; the second stores
  \<^verbatim>\<open>__expf(input[..] / temp - largest / temp)\<close> and sums; the third divides by the sum.
\<close>

definition class_index :: "uint \<Rightarrow> uint \<Rightarrow> uint \<Rightarrow> uint \<Rightarrow> nat \<Rightarrow> uint" where
  "class_index bbindex numGridCells z_id numOutputClasses i =
     bbindex + numGridCells * (z_id * (5 + numOutputClasses) + (5 + of_nat i))"

definition largest_step :: "(uint \<Rightarrow> f32) \<Rightarrow> (nat \<Rightarrow> uint) \<Rightarrow> nat \<Rightarrow> f32 \<Rightarrow> f32" where
  "largest_step input idx i largest =
     (let val = int_of_f32 (input (idx i))
      in if largest < f32_of_int val then f32_of_int val else largest)"

definition exp_step ::
  "(uint \<Rightarrow> f32) \<Rightarrow> (nat \<Rightarrow> uint) \<Rightarrow> f32 \<Rightarrow> f32 \<Rightarrow> nat \<Rightarrow> f32 \<times> (uint \<Rightarrow> f32) \<Rightarrow> f32 \<times> (uint \<Rightarrow> f32)" where
  "exp_step input idx temp largest i acc =
     (let e = expf (input (idx i) / temp - largest / temp)
      in (fst acc + e, (snd acc)(idx i := e)))"

definition norm_step :: "(nat \<Rightarrow> uint) \<Rightarrow> f32 \<Rightarrow> nat \<Rightarrow> (uint \<Rightarrow> f32) \<Rightarrow> (uint \<Rightarrow> f32)" where
  "norm_step idx s i output = output(idx i := output (idx i) / s)"

definition softmax_largest :: "(uint \<Rightarrow> f32) \<Rightarrow> uint \<Rightarrow> uint \<Rightarrow> uint \<Rightarrow> uint \<Rightarrow> f32" where
  "softmax_largest input bbindex numGridCells z_id numOutputClasses =
     fold (largest_step input (class_index bbindex numGridCells z_id numOutputClasses))
       [0 ..< unat numOutputClasses] NInf"

definition softmaxGPU ::
  "(uint \<Rightarrow> f32) \<Rightarrow> uint \<Rightarrow> uint \<Rightarrow> uint \<Rightarrow> uint \<Rightarrow> f32 \<Rightarrow> (uint \<Rightarrow> f32) \<Rightarrow> (uint \<Rightarrow> f32)" where
  "softmaxGPU input bbindex numGridCells z_id numOutputClasses temp output =
     (let idx = class_index bbindex numGridCells z_id numOutputClasses;
          n = unat numOutputClasses;
          largest = softmax_largest input bbindex numGridCells z_id numOutputClasses;
          se = fold (exp_step input idx temp largest) [0 ..< n] (Fin 0, output)
      in fold (norm_step idx (fst se)) [0 ..< n] (snd se))"

text \<open>
  \<^verbatim>\<open>gpuRegionLayer\<close>, one thread. The kernel also owns the scratch buffer
  \<^verbatim>\<open>softmax\<close>, which \<^verbatim>\<open>softmaxGPU\<close> fills and the class scan reads back.
\<close>

definition gpuRegionLayer ::
  "(uint \<Rightarrow> f32) \<Rightarrow> f32 \<Rightarrow> uint \<Rightarrow> uint \<Rightarrow> uint \<Rightarrow> uint \<Rightarrow> uint \<Rightarrow> uint \<Rightarrow>
   (uint \<Rightarrow> f32) \<Rightarrow> uint \<Rightarrow> uint \<Rightarrow> uint \<Rightarrow> (uint \<Rightarrow> f32) \<times> outputs \<Rightarrow> (uint \<Rightarrow> f32) \<times> outputs" where
  "gpuRegionLayer input scoreThreshold netWidth netHeight gridSizeX gridSizeY
       numOutputClasses numBBoxes anchors x_id y_id z_id sst =
     (if gridSizeX \<le> x_id \<or> gridSizeY \<le> y_id \<or> numBBoxes \<le> z_id then sst
      else
        let softmax = fst sst; st = snd sst;
            numGridCells = gridSizeX * gridSizeY;
            bbindex = y_id * gridSizeX + x_id;
            ch = (\<lambda>k. input (chan_index gridSizeX gridSizeY numOutputClasses x_id y_id z_id k));
            objectness = sigmoidGPU (ch 4)
        in if objectness < scoreThreshold then sst
           else
             let count = countData st;
                 st1 = st\<lparr>countData := countData st + 1\<rparr>;
                 x = (sigmoidGPU (ch 0) + f32_of_uint x_id)
                       * f32_of_uint netWidth / f32_of_uint gridSizeX;
                 y = (sigmoidGPU (ch 1) + f32_of_uint y_id)
                       * f32_of_uint netHeight / f32_of_uint gridSizeY;
                 w = expf (ch 2) * anchors (z_id * 2)
                       * f32_of_uint netWidth / f32_of_uint gridSizeX;
                 h = expf (ch 3) * anchors (z_id * 2 + 1)
                       * f32_of_uint netHeight / f32_of_uint gridSizeY;
                 softmax1 = softmaxGPU input bbindex numGridCells z_id numOutputClasses 1 softmax;
                 best = class_scan
                          (\<lambda>i. softmax1 (chan_index gridSizeX gridSizeY numOutputClasses
                                           x_id y_id z_id (5 + i)))
                          numOutputClasses
             in (softmax1, emit count objectness (fst best) (snd best) x y w h st1))"

section \<open>Configuration blocks\<close>

text \<open>
  A block is a \<^verbatim>\<open>std::map<std::string, std::string>\<close>. It is kept as an association
  list with distinct keys; nothing in the program iterates over a block, so the
  order of the pairs is not observable. \<^verbatim>\<open>insert\<close> leaves a map unchanged when the key
  is already present; \<^verbatim>\<open>at\<close> throws \<^verbatim>\<open>std::out_of_range\<close> when it is absent.
\<close>

type_synonym block = "(string \<times> string) list"

datatype error =
    AssertFail              \<comment> \<open>a failed \<^verbatim>\<open>assert\<close>\<close>
  | OutOfRange              \<comment> \<open>\<^verbatim>\<open>std::out_of_range\<close> from \<^verbatim>\<open>at\<close> or \<^verbatim>\<open>stoi\<close>\<close>
  | InvalidArgument         \<comment> \<open>\<^verbatim>\<open>std::invalid_argument\<close> from \<^verbatim>\<open>stoi\<close>\<close>
  | EmptyFront              \<comment> \<open>\<^verbatim>\<open>front()\<close> of an empty string (undefined behaviour)\<close>
  | UnsupportedLayer string \<comment> \<open>"Unsupported layer type", then \<^verbatim>\<open>assert(0)\<close>\<close>
  | UnusedWeights           \<comment> \<open>"Number of unused weights left", then \<^verbatim>\<open>assert(0)\<close>\<close>
  | YoloCfgError            \<comment> \<open>"Error in yolo cfg file", then \<^verbatim>\<open>assert(0)\<close>\<close>
  | TopkError               \<comment> \<open>"topk > Number of outputs", then \<^verbatim>\<open>assert(0)\<close>\<close>

definition ebind :: "error + 'a \<Rightarrow> ('a \<Rightarrow> error + 'b) \<Rightarrow> error + 'b" where
  "ebind m f = (case m of Inl e \<Rightarrow> Inl e | Inr x \<Rightarrow> f x)"

definition assert_that :: "bool \<Rightarrow> error + unit" where
  "assert_that b = (if b then Inr () else Inl AssertFail)"

definition has_key :: "block \<Rightarrow> string \<Rightarrow> bool" where
  "has_key b k = (map_of b k \<noteq> None)"

definition block_insert :: "block \<Rightarrow> string \<Rightarrow> string \<Rightarrow> block" where
  "block_insert b k v = (if has_key b k then b else b @ [(k, v)])"

definition block_at :: "block \<Rightarrow> string \<Rightarrow> error + string" where
  "block_at b k = (case map_of b k of None \<Rightarrow> Inl OutOfRange | Some v \<Rightarrow> Inr v)"

section \<open>parseConfigFile\<close>

text \<open>
  The file is the list of its lines, as \<^verbatim>\<open>getline\<close> delivers them. \<^verbatim>\<open>trim\<close> is defined
  outside these sources and is a parameter of the parser.
\<close>

text \<open>Modelled from the spec: \<^verbatim>\<open>trim\<close>, which removes the surrounding whitespace.\<close>

definition isspace :: "char \<Rightarrow> bool" where
  "isspace c = (c \<in> set [CHR '' '', CHR 0x09, CHR 0x0A, CHR 0x0B, CHR 0x0C, CHR 0x0D])"









section \<open>buildYoloNetwork\<close>

text \<open>
  \<^verbatim>\<open>std::stoi\<close> in base 10: leading whitespace is skipped, then an optional sign, then
  the longest run of digits; no digit throws \<^verbatim>\<open>std::invalid_argument\<close>, a value outside
  the \<^verbatim>\<open>int\<close> range throws \<^verbatim>\<open>std::out_of_range\<close>. The result is an \<^verbatim>\<open>int\<close>, kept as a
  32-bit word that \<open>sint\<close> reads.
\<close>

definition is_digit :: "char \<Rightarrow> bool" where
  "is_digit c = (48 \<le> (of_char c :: nat) \<and> (of_char c :: nat) \<le> 57)"

definition digits_value :: "string \<Rightarrow> int" where
  "digits_value ds = foldl (\<lambda>acc c. 10 * acc + (int (of_char c) - 48)) 0 ds"

definition stoi :: "string \<Rightarrow> error + 32 word" where
  "stoi s =
     (let t = dropWhile isspace s;
          neg = (t \<noteq> [] \<and> hd t = CHR ''-'');
          u = (if t \<noteq> [] \<and> (hd t = CHR ''-'' \<or> hd t = CHR ''+'') then tl t else t);
          ds = takeWhile is_digit u;
          v = (if neg then - digits_value ds else digits_value ds)
      in if ds = [] then Inl InvalidArgument
         else if v < - (2 ^ 31) \<or> 2 ^ 31 - 1 < v then Inl OutOfRange
         else Inr (word_of_int v))"

text \<open>\<^verbatim>\<open>s.find(p) != std::string::npos\<close>.\<close>

fun contains :: "string \<Rightarrow> string \<Rightarrow> bool" where
  "contains [] p = (p = [])"
| "contains (c # cs) p = (take (length p) (c # cs) = p \<or> contains cs p)"

text \<open>
  \<^verbatim>\<open>TensorInfo\<close>, one per detection scale. Its declaration is in a header outside these
  sources; the fields are the ones the sources use, with the \<^verbatim>\<open>uint\<close> type under which
  the kernels receive the grid sizes and the anchor count.
\<close>

record TensorInfo =
  blobName :: string
  gridSizeX :: uint
  gridSizeY :: uint
  numBBoxes :: uint
  scaleXY :: f32
  anchors :: "f32 list"
  mask :: "int list"

text \<open>
  The members of \<^verbatim>\<open>Yolo\<close> that \<^verbatim>\<open>buildYoloNetwork\<close> reads. The counters are \<^verbatim>\<open>uint\<close>, as
  the local \<^verbatim>\<open>inputYoloCount\<close> they are compared with.
\<close>

record Yolo =
  m_ConfigBlocks :: "block list"
  m_NetworkType :: string
  m_InputC :: uint
  m_YoloCount :: uint
  m_YoloTensors :: "TensorInfo list"
  m_TopK :: uint

text \<open>
  The inference-engine API and the layer constructors are outside these sources. They
  are parameters: \<open>'t\<close> is a tensor handle, \<open>'n\<close> the state of the network under
  construction, which every constructor may change. A constructor that aborts or
  yields a null output returns \<open>None\<close>. \<^verbatim>\<open>convolutionalLayer\<close> and \<^verbatim>\<open>implicitLayer\<close>
  receive \<^verbatim>\<open>weightPtr\<close> by reference and return its new value.
\<close>

record ('t, 'n) engine =
  addInput :: "'n \<Rightarrow> 't option \<times> 'n"
  nbDims :: "'t \<Rightarrow> int"
  dim :: "'t \<Rightarrow> nat \<Rightarrow> 32 word"
  getNumChannels :: "'t \<Rightarrow> int"
  convolutionalLayer :: "uint \<Rightarrow> block \<Rightarrow> 32 word \<Rightarrow> int \<Rightarrow> 't \<Rightarrow> 'n \<Rightarrow> ('t option \<times> 32 word) \<times> 'n"
  implicitLayer :: "32 word \<Rightarrow> 32 word \<Rightarrow> 'n \<Rightarrow> ('t option \<times> 32 word) \<times> 'n"
  channelsLayer :: "string \<Rightarrow> 't \<Rightarrow> 't \<Rightarrow> 'n \<Rightarrow> 't option \<times> 'n"
  shortcutLayer :: "uint \<Rightarrow> string \<Rightarrow> 't \<Rightarrow> 't \<Rightarrow> 'n \<Rightarrow> 't option \<times> 'n"
  routeLayer :: "uint \<Rightarrow> block \<Rightarrow> 't list \<Rightarrow> 'n \<Rightarrow> 't option \<times> 'n"
  upsampleLayer :: "uint \<Rightarrow> block \<Rightarrow> 't \<Rightarrow> 'n \<Rightarrow> 't option \<times> 'n"
  maxpoolLayer :: "uint \<Rightarrow> block \<Rightarrow> 't \<Rightarrow> 'n \<Rightarrow> 't option \<times> 'n"
  reorgV5Layer :: "uint \<Rightarrow> 't \<Rightarrow> 'n \<Rightarrow> 't option \<times> 'n"
  reorgPlugin :: "uint \<Rightarrow> 't \<Rightarrow> 'n \<Rightarrow> 't option \<times> 'n"
  yoloAndNms :: "'t list \<Rightarrow> TensorInfo list \<Rightarrow> 64 word \<Rightarrow> int \<Rightarrow> 'n \<Rightarrow> 't option \<times> 'n"

text \<open>The local variables of \<^verbatim>\<open>buildYoloNetwork\<close>, with \<^verbatim>\<open>m_YoloTensors\<close>, which it updates.\<close>

record ('t, 'n) build_state =
  weightPtr :: "32 word"
  channels :: int
  previous :: 't
  tensorOutputs :: "'t list"
  yoloInputs :: "'t list"
  inputYoloCount :: uint
  modelType :: int
  yoloTensors :: "TensorInfo list"
  network :: 'n

text \<open>
  What every branch but the weighted ones does with a constructor's output:
  \<^verbatim>\<open>previous = out->getOutput(0); assert(previous != nullptr);\<close> and
  \<^verbatim>\<open>tensorOutputs.push_back(previous)\<close>; \<open>upd_channels\<close> tells whether the branch also
  runs \<^verbatim>\<open>channels = getNumChannels(previous)\<close>.
\<close>

definition push_output ::
  "('t, 'n) engine \<Rightarrow> bool \<Rightarrow> 't option \<times> 'n \<Rightarrow> ('t, 'n) build_state \<Rightarrow> error + ('t, 'n) build_state" where
  "push_output eng upd_channels out st =
     (case fst out of
        None \<Rightarrow> Inl AssertFail
      | Some t \<Rightarrow>
          Inr (st\<lparr> previous := t,
                   channels := (if upd_channels then getNumChannels eng t else channels st),
                   tensorOutputs := tensorOutputs st @ [t],
                   network := snd out \<rparr>))"

text \<open>
  The back-reference of a \<^verbatim>\<open>shift_channels\<close>, \<^verbatim>\<open>control_channels\<close> or \<^verbatim>\<open>shortcut\<close> block
  at position \<open>i\<close>; the two branches repeat the same five lines:
  \<^verbatim>\<open>
    if (from > 0) from = from - i + 1;
    assert((i - 2 >= 0) && (i - 2 < tensorOutputs.size()));
    assert((i + from - 1 >= 0) && (i + from - 1 < tensorOutputs.size()));
    assert(i + from - 1 < i - 2);\<close>
  \<open>i\<close> is a \<^verbatim>\<open>uint\<close> and \<open>from\<close> an \<^verbatim>\<open>int\<close>, so every sum is computed in \<^verbatim>\<open>uint\<close>, the
  two \<open>>= 0\<close> tests are always true, and the comparisons with \<^verbatim>\<open>size()\<close> are unsigned.
  The result is the index \<^verbatim>\<open>i + from - 1\<close> into \<^verbatim>\<open>tensorOutputs\<close>.
\<close>

definition normalize_from :: "uint \<Rightarrow> 32 word \<Rightarrow> 32 word" where
  "normalize_from i from = (if 0 <s from then from - i + 1 else from)"

definition back_reference :: "uint \<Rightarrow> 32 word \<Rightarrow> nat \<Rightarrow> error + uint" where
  "back_reference i from0 size_outputs =
     (let from = normalize_from i from0 in
      if \<not> (unat (i - 2) < size_outputs) then Inl AssertFail
      else if \<not> (unat (i + from - 1) < size_outputs) then Inl AssertFail
      else if \<not> (i + from - 1 < i - 2) then Inl AssertFail
      else Inr (i + from - 1))"

text \<open>\<^verbatim>\<open>std::to_string\<close> of an unsigned number.\<close>

fun to_string :: "nat \<Rightarrow> string" where
  "to_string n =
     (if n < 10 then [char_of (48 + n)]
      else to_string (n div 10) @ [char_of (48 + n mod 10)])"

declare to_string.simps [simp del]

text \<open>
  One turn of the loop over \<^verbatim>\<open>m_ConfigBlocks\<close>, at block \<open>blk\<close> of position \<open>i\<close>. The
  calls that only print are left out. The turn starts with
  \<^verbatim>\<open>assert(getNumChannels(previous) == channels)\<close>; every comparison of the dispatch
  chain then reads \<^verbatim>\<open>m_ConfigBlocks.at(i).at("type")\<close>, which throws when the block has
  no such key. \<open>build_dispatch\<close> is the chain, on the value \<open>ty\<close> of that key.
\<close>

definition build_dispatch ::
  "('t, 'n) engine \<Rightarrow> Yolo \<Rightarrow> uint \<Rightarrow> block \<Rightarrow> ('t, 'n) build_state \<Rightarrow> string
   \<Rightarrow> error + ('t, 'n) build_state" where
  "build_dispatch eng y i blk st ty =
       (if ty = ''net'' then Inr st

        else if ty = ''convolutional'' then
          (let r = convolutionalLayer eng i blk (weightPtr st) (channels st) (previous st) (network st)
           in ebind (push_output eng True (fst (fst r), snd r) (st\<lparr>weightPtr := snd (fst r)\<rparr>)) (\<lambda>st1.
              ebind (block_at blk ''activation'') (\<lambda>_. Inr st1)))

        else if ty = ''implicit_add'' \<or> ty = ''implicit_mul'' then
          ebind (assert_that (has_key blk ''filters'')) (\<lambda>_.
          ebind (block_at blk ''filters'') (\<lambda>s.
          ebind (stoi s) (\<lambda>filters.
            let r = implicitLayer eng filters (weightPtr st) (network st)
            in push_output eng True (fst (fst r), snd r) (st\<lparr>weightPtr := snd (fst r)\<rparr>))))

        else if ty = ''shift_channels'' \<or> ty = ''control_channels'' then
          (let type = (if ty = ''shift_channels'' then ''shift'' else ''control'') in
           ebind (assert_that (has_key blk ''from'')) (\<lambda>_.
           ebind (block_at blk ''from'') (\<lambda>s.
           ebind (stoi s) (\<lambda>from.
           ebind (back_reference i from (length (tensorOutputs st))) (\<lambda>idx.
             push_output eng False
               (channelsLayer eng type (previous st) (tensorOutputs st ! unat idx) (network st)) st)))))

        else if ty = ''dropout'' then
          Inr (st\<lparr>tensorOutputs := tensorOutputs st @ [previous st]\<rparr>)

        else if ty = ''shortcut'' then
          ebind (assert_that (has_key blk ''activation'')) (\<lambda>_.
          ebind (assert_that (has_key blk ''from'')) (\<lambda>_.
          ebind (block_at blk ''activation'') (\<lambda>activation.
          ebind (block_at blk ''from'') (\<lambda>s.
          ebind (stoi s) (\<lambda>from.
          ebind (back_reference i from (length (tensorOutputs st))) (\<lambda>idx.
            push_output eng False
              (shortcutLayer eng i activation (previous st) (tensorOutputs st ! unat idx) (network st))
              st))))))

        else if ty = ''route'' then
          ebind (assert_that (has_key blk ''layers'')) (\<lambda>_.
            push_output eng True (routeLayer eng i blk (tensorOutputs st) (network st)) st)

        else if ty = ''upsample'' then
          push_output eng False (upsampleLayer eng (i - 1) blk (previous st) (network st)) st

        else if ty = ''maxpool'' then
          push_output eng False (maxpoolLayer eng i blk (previous st) (network st)) st

        else if ty = ''reorg'' then
          (if contains (m_NetworkType y) ''yolov5'' \<or> contains (m_NetworkType y) ''yolor''
           then push_output eng True (reorgV5Layer eng i (previous st) (network st)) st
           else push_output eng True (reorgPlugin eng i (previous st) (network st)) st)

        else if ty = ''yolo'' \<or> ty = ''region'' then
          (let mt = (if ty = ''yolo''
                     then (if contains (m_NetworkType y) ''yolor'' then 2 else 1)
                     else 0);
               layerName = (if mt \<noteq> 0 then ''yolo_'' else ''region_'') @ to_string (unat i);
               k = unat (inputYoloCount st)
           in if \<not> k < length (yoloTensors st) then Inl OutOfRange
              else
                Inr (st\<lparr> modelType := mt,
                         yoloTensors := (yoloTensors st)
                           [k := (yoloTensors st ! k)
                                   \<lparr> blobName := layerName,
                                     gridSizeX := dim eng (previous st) 2,
                                     gridSizeY := dim eng (previous st) 1 \<rparr>],
                         channels := getNumChannels eng (previous st),
                         tensorOutputs := tensorOutputs st @ [previous st],
                         yoloInputs := yoloInputs st @ [previous st],
                         inputYoloCount := inputYoloCount st + 1 \<rparr>))

        else Inl (UnsupportedLayer ty))"

definition build_block ::
  "('t, 'n) engine \<Rightarrow> Yolo \<Rightarrow> uint \<Rightarrow> block \<Rightarrow> ('t, 'n) build_state
   \<Rightarrow> error + ('t, 'n) build_state" where
  "build_block eng y i blk st =
     (if getNumChannels eng (previous st) \<noteq> channels st then Inl AssertFail
      else ebind (block_at blk ''type'') (build_dispatch eng y i blk st))"

text \<open>
  The loop \<^verbatim>\<open>for (uint i = 0; i < m_ConfigBlocks.size(); ++i)\<close>, from position \<open>i\<close> on the
  blocks still to process.
\<close>

fun build_loop ::
  "('t, 'n) engine \<Rightarrow> Yolo \<Rightarrow> nat \<Rightarrow> block list \<Rightarrow> ('t, 'n) build_state
   \<Rightarrow> error + ('t, 'n) build_state" where
  "build_loop eng y i [] st = Inr st"
| "build_loop eng y i (blk # blks) st =
     ebind (build_block eng y (of_nat i) blk st) (build_loop eng y (Suc i) blks)"

text \<open>
  The sum \<^verbatim>\<open>outputSize += gridSizeX * gridSizeY * numBBoxes\<close> over the first
  \<open>n\<close> entries of \<^verbatim>\<open>m_YoloTensors\<close>, read with \<^verbatim>\<open>at(j)\<close>: the product is a \<^verbatim>\<open>uint\<close>,
  the sum a \<^verbatim>\<open>uint64_t\<close>.
\<close>

definition output_size_step :: "TensorInfo list \<Rightarrow> nat \<Rightarrow> 64 word \<Rightarrow> error + 64 word" where
  "output_size_step ts j outputSize =
     (if \<not> j < length ts then Inl OutOfRange
      else Inr (outputSize
                 + ucast (gridSizeX (ts ! j) * gridSizeY (ts ! j) * numBBoxes (ts ! j))))"

definition output_size :: "TensorInfo list \<Rightarrow> nat \<Rightarrow> error + 64 word" where
  "output_size ts n = fold (\<lambda>j r. ebind r (output_size_step ts j)) [0 ..< n] (Inr 0)"

text \<open>The checks after the loop, then the decode stage and the NMS stage.\<close>

definition post_loop ::
  "('t, 'n) engine \<Rightarrow> Yolo \<Rightarrow> f32 list \<Rightarrow> ('t, 'n) build_state
   \<Rightarrow> error + ('t, 'n) build_state \<times> 64 word" where
  "post_loop eng y weights st =
     (if (word_of_nat (length weights) :: 32 word) \<noteq> weightPtr st then Inl UnusedWeights
      else if m_YoloCount y = inputYoloCount st then
        ebind (assert_that (modelType st \<noteq> - 1)) (\<lambda>_.
        ebind (output_size (yoloTensors st) (unat (inputYoloCount st))) (\<lambda>outputSize.
          if outputSize < ucast (m_TopK y) then Inl TopkError
          else
            ebind (push_output eng False
                     (yoloAndNms eng (yoloInputs st) (yoloTensors st) outputSize (modelType st)
                        (network st)) st)
              (\<lambda>st1. Inr (st1, outputSize))))
      else Inl YoloCfgError)"

text \<open>
  \<^verbatim>\<open>buildYoloNetwork\<close>: the locals are initialised, the input tensor is added and
  asserted, the loop runs, then the checks.
\<close>

definition init_state :: "Yolo \<Rightarrow> 't \<Rightarrow> 'n \<Rightarrow> ('t, 'n) build_state" where
  "init_state y data net =
     \<lparr> weightPtr = 0, channels = sint (m_InputC y), previous = data,
       tensorOutputs = [], yoloInputs = [], inputYoloCount = 0,
       modelType = - 1, yoloTensors = m_YoloTensors y, network = net \<rparr>"

definition buildYoloNetwork ::
  "('t, 'n) engine \<Rightarrow> Yolo \<Rightarrow> f32 list \<Rightarrow> 'n \<Rightarrow> error + ('t, 'n) build_state \<times> 64 word" where
  "buildYoloNetwork eng y weights net =
     (case fst (addInput eng net) of
        None \<Rightarrow> Inl AssertFail
      | Some data \<Rightarrow>
          if \<not> 0 < nbDims eng data then Inl AssertFail
          else
            ebind (build_loop eng y 0 (m_ConfigBlocks y)
                     (init_state y data (snd (addInput eng net))))
              (post_loop eng y weights))"

section \<open>Notions used to state the properties\<close>

text \<open>
  What the class scan leaves in \<^verbatim>\<open>maxProb\<close> and \<^verbatim>\<open>maxIndex\<close>: either the initial pair,
  when no class probability compares greater than \<open>0.0\<close>, or the first class among
  those no other class exceeds, with its probability.
\<close>

definition best_class :: "(uint \<Rightarrow> f32) \<Rightarrow> uint \<Rightarrow> f32 \<Rightarrow> int \<Rightarrow> bool" where
  "best_class prob n maxProb maxIndex =
     ((maxIndex = - 1 \<and> maxProb = Fin 0 \<and> (\<forall>c<n. \<not> Fin 0 < prob c))
      \<or> (\<exists>c<n. maxIndex = int (unat c) \<and> maxProb = prob c \<and> Fin 0 < prob c
             \<and> (\<forall>d<n. \<not> prob c < prob d) \<and> (\<forall>d<c. prob d \<noteq> prob c)))"

text \<open>The same, after the first \<open>n\<close> turns of the scan.\<close>

definition scan_inv :: "(uint \<Rightarrow> f32) \<Rightarrow> nat \<Rightarrow> f32 \<times> int \<Rightarrow> bool" where
  "scan_inv prob n best =
     ((snd best = - 1 \<and> fst best = Fin 0 \<and> (\<forall>i<n. \<not> Fin 0 < prob (of_nat i)))
      \<or> (0 \<le> snd best \<and> snd best < int n \<and> fst best = prob (of_nat (nat (snd best)))
          \<and> Fin 0 < fst best
          \<and> (\<forall>i<n. \<not> fst best < prob (of_nat i))
          \<and> (\<forall>i<nat (snd best). prob (of_nat i) \<noteq> fst best)))"






definition insert_all :: "block \<Rightarrow> (string \<times> string) list \<Rightarrow> block" where
  "insert_all b ps = fold (\<lambda>p b. block_insert b (fst p) (snd p)) ps b"



text \<open>A detection block is one whose \<open>type\<close> is \<open>yolo\<close> or \<open>region\<close>.\<close>

definition is_detection :: "block \<Rightarrow> bool" where
  "is_detection blk = (map_of blk ''type'' = Some ''yolo'' \<or> map_of blk ''type'' = Some ''region'')"

text \<open>
  The back-reference rule as the specification words it, on mathematical integers: a
  non-negative \<open>from\<close> becomes the offset \<open>from - i + 1\<close>; the reference is accepted when
  the index \<open>i + from - 1\<close> is within the outputs so far and the position it stands for
  is less than \<open>i - 1\<close>.
\<close>

definition spec_back_reference_ok :: "int \<Rightarrow> int \<Rightarrow> nat \<Rightarrow> bool" where
  "spec_back_reference_ok i from0 size_outputs =
     (let from = (if 0 \<le> from0 then from0 - i + 1 else from0);
          target = i + from - 1
      in 0 \<le> target \<and> target < int size_outputs \<and> target + 1 < i - 1)"

text \<open>
  For the examples: output buffers filled with zeros and a counter reset to zero; a raw
  tensor whose logits are all 0; the same with the logit \<open>-200\<close> at offset 5 (the first
  class of cell 0, anchor 0), and at the offsets 5 and 6; a tensor with the class logits \<open>0.5\<close> and \<open>0.7\<close>; priors of
  10 pixels; a mask that selects prior 0; a scratch buffer of zeros.
\<close>

definition st0 :: outputs where
  "st0 = \<lparr>countData = 0, d_indexes = (\<lambda>_. 0), d_scores = (\<lambda>_. Fin 0),
          d_boxes = (\<lambda>_. Fin 0), d_classes = (\<lambda>_. 0)\<rparr>"

definition zero_logits :: "uint \<Rightarrow> f32" where
  "zero_logits k = Fin 0"

definition cold_class_logits :: "uint \<Rightarrow> f32" where
  "cold_class_logits k = (if k = 5 then Fin (- 200) else Fin 0)"

definition cold_two_class_logits :: "uint \<Rightarrow> f32" where
  "cold_two_class_logits k = (if k = 5 \<or> k = 6 then Fin (- 200) else Fin 0)"

definition two_class_logits :: "uint \<Rightarrow> f32" where
  "two_class_logits k = (if k = 5 then Fin (1/2) else if k = 6 then Fin (7/10) else Fin 0)"

definition prior10 :: "int \<Rightarrow> f32" where
  "prior10 k = Fin 10"

definition region_prior10 :: "uint \<Rightarrow> f32" where
  "region_prior10 k = Fin 10"

definition mask0 :: "uint \<Rightarrow> int" where
  "mask0 k = 0"

definition zero_buffer :: "uint \<Rightarrow> f32" where
  "zero_buffer k = Fin 0"

text \<open>
  An engine for the examples: tensors are numbers, every tensor has 3 channels and a
  13 x 13 grid, a convolution reads one weight, and no constructor fails.
\<close>

definition eng0 :: "(nat, unit) engine" where
  "eng0 =
     \<lparr> addInput = (\<lambda>n. (Some 0, n)),
       nbDims = (\<lambda>t. 3),
       dim = (\<lambda>t k. 13),
       getNumChannels = (\<lambda>t. 3),
       convolutionalLayer = (\<lambda>i blk wp c t n. ((Some (Suc t), wp + 1), n)),
       implicitLayer = (\<lambda>f wp n. ((Some 0, wp + 1), n)),
       channelsLayer = (\<lambda>ty a b n. (Some (Suc a), n)),
       shortcutLayer = (\<lambda>i act a b n. (Some (Suc a), n)),
       routeLayer = (\<lambda>i blk ts n. (Some 0, n)),
       upsampleLayer = (\<lambda>i blk t n. (Some (Suc t), n)),
       maxpoolLayer = (\<lambda>i blk t n. (Some (Suc t), n)),
       reorgV5Layer = (\<lambda>i t n. (Some (Suc t), n)),
       reorgPlugin = (\<lambda>i t n. (Some (Suc t), n)),
       yoloAndNms = (\<lambda>ts infos sz mt n. (Some 0, n)) \<rparr>"

definition scale0 :: TensorInfo where
  "scale0 = \<lparr> blobName = [], gridSizeX = 0, gridSizeY = 0, numBBoxes = 3, scaleXY = Fin 1,
              anchors = [Fin 10, Fin 13], mask = [] \<rparr>"

text \<open>A network of one detection block, and the same object with a second scale declared.\<close>

definition yolo1 :: Yolo where
  "yolo1 = \<lparr> m_ConfigBlocks = [[(''type'', ''net'')], [(''type'', ''yolo'')]],
             m_NetworkType = ''yolov4'', m_InputC = 3, m_YoloCount = 1,
             m_YoloTensors = [scale0], m_TopK = 507 \<rparr>"



text \<open>
  What a block other than a detection block leaves unchanged in the state of the
  builder: the detection count, the scale table, the model type and the decode inputs;
  it adds at most one output.
\<close>

definition frame :: "('t, 'n) build_state \<Rightarrow> ('t, 'n) build_state \<Rightarrow> bool" where
  "frame st st' =
     (inputYoloCount st' = inputYoloCount st \<and> yoloTensors st' = yoloTensors st
      \<and> modelType st' = modelType st \<and> yoloInputs st' = yoloInputs st
      \<and> length (tensorOutputs st') \<le> Suc (length (tensorOutputs st)))"

text \<open>
  The number of candidates of one scale, grid width times grid height times anchor
  count, as a natural number.
\<close>

definition scale_outputs :: "TensorInfo \<Rightarrow> nat" where
  "scale_outputs t = unat (gridSizeX t) * unat (gridSizeY t) * unat (numBBoxes t)"

text \<open>
  The same product as \<^verbatim>\<open>buildYoloNetwork\<close> computes it before adding it to the 64-bit
  sum: on three \<^verbatim>\<open>uint\<close> operands, so modulo \<open>2^32\<close>.
\<close>

definition scale_outputs32 :: "TensorInfo \<Rightarrow> nat" where
  "scale_outputs32 t = unat (gridSizeX t * gridSizeY t * numBBoxes t)"

text \<open>
  Variants of \<open>yolo1\<close> for the examples: two scales declared for one detection block
  (the members after a second \<^verbatim>\<open>createEngine\<close> on the same object, since
  \<^verbatim>\<open>parseConfigBlocks\<close> adds to \<^verbatim>\<open>m_YoloCount\<close> and \<^verbatim>\<open>m_YoloTensors\<close> without resetting
  them); three detection blocks for two scales declared; a network with one
  convolution; and a top-K of 508.
\<close>

definition yolo_two_declared :: Yolo where
  "yolo_two_declared = yolo1\<lparr>m_YoloCount := 2, m_YoloTensors := [scale0, scale0]\<rparr>"

definition yolo_three_blocks :: Yolo where
  "yolo_three_blocks =
     yolo1\<lparr>m_ConfigBlocks := [[(''type'', ''net'')], [(''type'', ''yolo'')],
                              [(''type'', ''yolo'')], [(''type'', ''yolo'')]],
           m_YoloCount := 2, m_YoloTensors := [scale0, scale0]\<rparr>"

definition yolo_conv :: Yolo where
  "yolo_conv =
     yolo1\<lparr>m_ConfigBlocks := [[(''type'', ''net'')],
                              [(''type'', ''convolutional''), (''activation'', ''leaky'')],
                              [(''type'', ''yolo'')]]\<rparr>"

definition yolo_topk508 :: Yolo where
  "yolo_topk508 = yolo1\<lparr>m_TopK := 508\<rparr>"

text \<open>
  A detection scale declared with \<open>num = 25414008\<close> anchors (on the 13 x 13 grid it has
  \<open>169 * 25414008 = 2^32 + 56\<close> candidates), and \<open>yolo1\<close> with that scale and a top-K of 57.
\<close>

definition scale_wrap :: TensorInfo where
  "scale_wrap = scale0\<lparr>numBBoxes := 25414008\<rparr>"

definition yolo_wrap :: Yolo where
  "yolo_wrap = yolo1\<lparr>m_YoloTensors := [scale_wrap], m_TopK := 57\<rparr>"

text \<open>
  The mathematical softmax of the logits \<open>x 0, \<dots>, x (n - 1)\<close>, at class \<open>i\<close>.
\<close>

definition softmax_real :: "(nat \<Rightarrow> real) \<Rightarrow> nat \<Rightarrow> nat \<Rightarrow> real" where
  "softmax_real x n i = exp (x i) / (\<Sum>j<n. exp (x j))"

text \<open>
  A raw tensor whose single class logit, at offset 5, is \<open>3 * 10^9\<close>, beyond the range of
  an \<^verbatim>\<open>int\<close>; that logit and the two class logits of \<open>two_class_logits\<close> as sequences.
\<close>

definition huge_logit :: "uint \<Rightarrow> f32" where
  "huge_logit k = (if k = 5 then Fin 3000000000 else Fin 0)"

definition huge_logits :: "nat \<Rightarrow> real" where
  "huge_logits j = 3000000000"

definition two_logits :: "nat \<Rightarrow> real" where
  "two_logits j = (if j = 0 then 1/2 else 7/10)"


section \<open>Properties of the kernels\<close>

subsection \<open>Arithmetic of the scalars\<close>

lemmas f32_ops = zero_f32_def one_f32_def plus_f32_def uminus_f32_def minus_f32_def
  times_f32_def divide_f32_def less_f32_def

lemma f32_half_mul: "Fin (1/2) * w = w / Fin 2"
  by (cases w) (simp_all add: f32_ops f32_range_def)

lemma f32_less_irrefl: "\<not> (a :: f32) < a"
  by (cases a) (simp_all add: less_f32_def)

lemma f32_less_trans: "(a :: f32) < b \<Longrightarrow> b < c \<Longrightarrow> a < c"
  by (cases a; cases b; cases c) (simp_all add: less_f32_def)

lemma f32_less_asym: "(a :: f32) < b \<Longrightarrow> \<not> b < a"
  using f32_less_trans f32_less_irrefl by blast

lemma expf_zero: "expf (Fin 0) = Fin 1"
  by (simp add: f32_range_def F32_OVERFLOW_def)

lemma sigmoid_zero: "sigmoidGPU (Fin 0) = Fin (1/2)"
  by (simp add: sigmoidGPU_def f32_ops f32_range_def F32_OVERFLOW_def)

text \<open>\<open>e^200\<close> is beyond the binary32 range, so the sigmoid of \<open>-200\<close> is \<open>1 / \<infinity> = 0\<close>.\<close>

lemma exp_200_overflow: "F32_OVERFLOW \<le> exp (200::real)"
proof -
  have "(2::real) \<le> exp 1" using exp_ge_add_one_self[of "1::real"] by simp
  then have "(2::real) ^ 200 \<le> exp 1 ^ 200" by (rule power_mono) simp
  also have "\<dots> = exp (200::real)" by (simp add: exp_of_nat_mult[symmetric])
  finally have "(2::real) ^ 200 \<le> exp 200" .
  moreover have "F32_OVERFLOW \<le> (2::real) ^ 200" by (simp add: F32_OVERFLOW_def)
  ultimately show ?thesis by linarith
qed

lemma sigmoid_underflow: "sigmoidGPU (Fin (- 200)) = Fin 0"
  using exp_200_overflow by (simp add: sigmoidGPU_def f32_ops f32_range_def)

lemma sint_of_nat_uint: "i < 2 ^ 31 \<Longrightarrow> sint (of_nat i :: uint) = int i"
  by (simp add: signed_of_nat signed_take_bit_int_eq_self)

lemma all_less_uint: "(\<forall>i<unat (n :: uint). P (of_nat i :: uint)) = (\<forall>c<n. P c)"
proof
  assume h: "\<forall>i<unat n. P (of_nat i :: uint)"
  show "\<forall>c<n. P c"
  proof (intro allI impI)
    fix c assume "c < n"
    then have "unat c < unat n" by (simp add: word_less_nat_alt)
    with h have "P (of_nat (unat c))" by blast
    then show "P c" by simp
  qed
next
  assume h: "\<forall>c<n. P c"
  show "\<forall>i<unat n. P (of_nat i :: uint)"
  proof (intro allI impI)
    fix i assume i: "i < unat n"
    have "unat n < 2 ^ 32" using unsigned_less[of n, where 'a=nat] by simp
    with i have "unat (of_nat i :: uint) = i" by (simp add: unat_of_nat)
    with i have "(of_nat i :: uint) < n" by (simp add: word_less_nat_alt)
    with h show "P (of_nat i)" by blast
  qed
qed

subsection \<open>The class scan\<close>

lemma scan_inv_fold:
  "n \<le> 2 ^ 31 \<Longrightarrow> scan_inv prob n (fold (class_step prob) [0 ..< n] (Fin 0, - 1))"
proof (induction n)
  case 0
  then show ?case by (simp add: scan_inv_def)
next
  case (Suc n)
  define best where "best = fold (class_step prob) [0 ..< n] (Fin 0, - 1)"
  from Suc have inv: "scan_inv prob n best" and n: "n < 2 ^ 31" by (simp_all add: best_def)
  have step: "fold (class_step prob) [0 ..< Suc n] (Fin 0, - 1) = class_step prob n best"
    by (simp add: best_def)
  show ?case
  proof (cases "fst best < prob (of_nat n)")
    case False
    then have "class_step prob n best = best" by (simp add: class_step_def)
    moreover from inv False have "scan_inv prob (Suc n) best"
      unfolding scan_inv_def by (auto simp: less_Suc_eq)
    ultimately show ?thesis using step by simp
  next
    case True
    then have cs: "class_step prob n best = (prob (of_nat n), int n)"
      using n by (simp add: class_step_def sint_of_nat_uint)
    have old: "\<forall>i<n. \<not> fst best < prob (of_nat i)"
      using inv unfolding scan_inv_def by auto
    have pos: "Fin 0 < prob (of_nat n)"
      using inv True unfolding scan_inv_def by (auto intro: f32_less_trans)
    have nogreater: "\<forall>i<Suc n. \<not> prob (of_nat n) < prob (of_nat i)"
      using old True by (auto simp: less_Suc_eq f32_less_irrefl dest: f32_less_trans)
    have first: "\<forall>i<n. prob (of_nat i) \<noteq> prob (of_nat n)"
      using old True by metis
    show ?thesis
      unfolding step cs scan_inv_def using pos nogreater first by simp
  qed
qed

lemma class_scan_result:
  assumes "unat n \<le> 2 ^ 31"
  shows "(snd (class_scan prob n) = - 1 \<and> fst (class_scan prob n) = Fin 0
            \<and> (\<forall>c<n. \<not> Fin 0 < prob c))
         \<or> (\<exists>c<n. snd (class_scan prob n) = int (unat c) \<and> fst (class_scan prob n) = prob c
               \<and> Fin 0 < prob c \<and> (\<forall>d<n. \<not> prob c < prob d) \<and> (\<forall>d<c. prob d \<noteq> prob c))"
proof -
  define best where "best = class_scan prob n"
  have inv: "scan_inv prob (unat n) best"
    unfolding best_def class_scan_def using assms by (rule scan_inv_fold)
  show ?thesis
  proof (cases "snd best = - 1")
    case True
    with inv have "fst best = Fin 0" and z: "\<forall>i<unat n. \<not> Fin 0 < prob (of_nat i)"
      unfolding scan_inv_def by auto
    from z have "\<forall>c<n. \<not> Fin 0 < prob c"
      using all_less_uint [of n "\<lambda>c. \<not> Fin 0 < prob c"] by blast
    with True \<open>fst best = Fin 0\<close> show ?thesis unfolding best_def by simp
  next
    case False
    define k where "k = nat (snd best)"
    define c :: uint where "c = of_nat k"
    from inv False have r: "0 \<le> snd best" "snd best < int (unat n)"
      and k3: "fst best = prob c" and k4: "Fin 0 < fst best"
      and ng: "\<forall>i<unat n. \<not> fst best < prob (of_nat i)"
      and fs: "\<forall>i<k. prob (of_nat i) \<noteq> fst best"
      unfolding scan_inv_def k_def c_def by blast+
    from r have k1: "snd best = int k" and k2: "k < unat n" unfolding k_def by linarith+
    note k = k1 k2 k3 k4
    have "unat n < 2 ^ 32" using unsigned_less[of n, where 'a=nat] by simp
    with k(2) have uc: "unat c = k" by (simp add: c_def unat_of_nat)
    with k(2) have cn: "c < n" by (simp add: word_less_nat_alt)
    from ng have ng': "\<forall>d<n. \<not> prob c < prob d"
      using k(3) all_less_uint [of n "\<lambda>d. \<not> prob c < prob d"] by simp
    from fs have "\<forall>i<unat c. prob (of_nat i) \<noteq> prob c" using uc k(3) by simp
    then have fs': "\<forall>d<c. prob d \<noteq> prob c"
      using all_less_uint [of c "\<lambda>d. prob d \<noteq> prob c"] by blast
    from cn k uc ng' fs' have "\<exists>c<n. snd best = int (unat c) \<and> fst best = prob c
               \<and> Fin 0 < prob c \<and> (\<forall>d<n. \<not> prob c < prob d) \<and> (\<forall>d<c. prob d \<noteq> prob c)"
      by (intro exI[of _ c]) simp
    then show ?thesis unfolding best_def by blast
  qed
qed

lemma class_scan_best:
  "unat n \<le> 2 ^ 31 \<Longrightarrow> best_class prob n (fst (class_scan prob n)) (snd (class_scan prob n))"
  unfolding best_class_def by (rule class_scan_result)

subsection \<open>Box decode of the anchor-mask kernel\<close>

text \<open>
  Claim C1. In \<^verbatim>\<open>gpuYoloLayer\<close>, for every in-range cell and anchor that passes the
  objectness gate, the box written at the reserved slot has the center
  \<open>(sigmoid(tx) * alpha + beta + x_id) * netWidth / gridSizeX\<close> (and the same in \<open>y\<close> with
  \<open>netHeight / gridSizeY\<close>), where \<open>alpha\<close> is \<^verbatim>\<open>scaleXY\<close> and \<open>beta = -0.5 * (alpha - 1)\<close>;
  the size \<open>exp(tw)\<close> times the anchor prior selected through the mask, with no grid
  rescaling; and the corners \<open>cx - w/2\<close>, \<open>cy - h/2\<close>, \<open>cx + w/2\<close>, \<open>cy + h/2\<close>.
\<close>

theorem yolo_box_decode:
  assumes "x_id < gx" "y_id < gy" "z_id < nb"
    and "\<not> sigmoidGPU (input (chan_index gx gy nc x_id y_id z_id 4)) < thr"
  shows "let st' = gpuYoloLayer input thr netW netH gx gy nc nb sxy anch msk x_id y_id z_id st;
             t = (\<lambda>k. input (chan_index gx gy nc x_id y_id z_id k));
             alpha = sxy;
             beta = Fin (- (1/2)) * (alpha - 1);
             cx = (sigmoidGPU (t 0) * alpha + beta + f32_of_uint x_id)
                    * f32_of_uint netW / f32_of_uint gx;
             cy = (sigmoidGPU (t 1) * alpha + beta + f32_of_uint y_id)
                    * f32_of_uint netH / f32_of_uint gy;
             w = expf (t 2) * anch (msk z_id * 2);
             h = expf (t 3) * anch (msk z_id * 2 + 1);
             slot = countData st
         in d_boxes st' (slot * 4) = cx - w / Fin 2
          \<and> d_boxes st' (slot * 4 + 1) = cy - h / Fin 2
          \<and> d_boxes st' (slot * 4 + 2) = cx + w / Fin 2
          \<and> d_boxes st' (slot * 4 + 3) = cy + h / Fin 2"
proof -
  from assms have r: "\<not> gx \<le> x_id" "\<not> gy \<le> y_id" "\<not> nb \<le> z_id"
    by (simp_all add: not_le)
  show ?thesis
    using r assms(4) by (simp add: gpuYoloLayer_def Let_def emit_def f32_half_mul)
qed

text \<open>
  A 1 x 1 grid, network 416 x 416, all logits 0, \<^verbatim>\<open>scaleXY = 1\<close>, prior 10: the
  center is 208 and the box runs from 203 to 213.
\<close>

theorem yolo_box_decode_witness:
  "(0::uint) < 1 \<and> \<not> sigmoidGPU (Fin 0) < Fin (1/2)
   \<and> d_boxes (gpuYoloLayer zero_logits (Fin (1/2)) 416 416 1 1 1 1 (Fin 1) prior10
               mask0 0 0 0 st0) 0 = Fin 203
   \<and> d_boxes (gpuYoloLayer zero_logits (Fin (1/2)) 416 416 1 1 1 1 (Fin 1) prior10
               mask0 0 0 0 st0) 2 = Fin 213"
proof -
  have h: "(0::uint) < 1" by simp
  have g: "\<not> sigmoidGPU (Fin 0) < Fin (1/2)"
    by (simp add: sigmoid_zero less_f32_def)
  show ?thesis
    using h g yolo_box_decode [where x_id = 0 and gx = 1 and y_id = 0 and gy = 1 and z_id = 0
        and nb = 1 and input = zero_logits and nc = 1 and thr = "Fin (1/2)" and netW = 416
        and netH = 416 and sxy = "Fin 1" and anch = prior10 and msk = mask0 and st = st0]
    by (simp add: Let_def sigmoid_zero expf_zero f32_ops f32_range_def F32_OVERFLOW_def
          f32_of_uint_def st0_def zero_logits_def prior10_def mask0_def)
qed

subsection \<open>The objectness gate\<close>

text \<open>
  Claim C2, as the kernels have it. For every in-range cell and anchor, in both kernels:
  a cell whose objectness is less than the score threshold contributes nothing (the
  counter and every buffer are unchanged); any other cell reserves a slot and is
  written. The early exit is \<^verbatim>\<open>objectness < scoreThreshold\<close>, so a cell whose objectness is
  exactly the threshold is included, as is a cell above it.
\<close>

theorem threshold_gate:
  assumes "x_id < gx" "y_id < gy" "z_id < nb"
  shows "let objectness = sigmoidGPU (input (chan_index gx gy nc x_id y_id z_id 4));
             st' = gpuYoloLayer input thr netW netH gx gy nc nb sxy anch msk x_id y_id z_id st;
             rst' = gpuRegionLayer input thr netW netH gx gy nc nb ranch x_id y_id z_id
                      (softmax, st)
         in (objectness < thr \<longrightarrow> st' = st \<and> rst' = (softmax, st))
          \<and> (\<not> objectness < thr \<longrightarrow>
                countData st' = countData st + 1 \<and> d_indexes st' (countData st) = countData st
              \<and> countData (snd rst') = countData st + 1
              \<and> d_indexes (snd rst') (countData st) = countData st)
          \<and> (objectness = thr \<longrightarrow> \<not> objectness < thr)
          \<and> (thr < objectness \<longrightarrow> \<not> objectness < thr)"
proof -
  from assms have r: "\<not> gx \<le> x_id" "\<not> gy \<le> y_id" "\<not> nb \<le> z_id"
    by (simp_all add: not_le)
  show ?thesis
    using r by (simp add: gpuYoloLayer_def gpuRegionLayer_def Let_def emit_def f32_less_irrefl
        f32_less_asym)
qed

text \<open>
  With the threshold \<open>0.5\<close>: a cell of objectness \<open>sigmoid 0 = 0.5\<close> is counted, and with
  the threshold \<open>1\<close> the same cell leaves the outputs as they were.
\<close>

theorem threshold_gate_witness:
  "(0::uint) < 1
   \<and> countData (gpuYoloLayer zero_logits (Fin (1/2)) 416 416 1 1 1 1 (Fin 1) prior10
                  mask0 0 0 0 st0) = 1
   \<and> gpuYoloLayer zero_logits (Fin 1) 416 416 1 1 1 1 (Fin 1) prior10 mask0 0 0 0 st0
       = st0"
proof -
  have h: "(0::uint) < 1" by simp
  have a: "\<not> sigmoidGPU (Fin 0) < Fin (1/2)" by (simp add: sigmoid_zero less_f32_def)
  have b: "sigmoidGPU (Fin 0) < Fin 1" by (simp add: sigmoid_zero less_f32_def)
  show ?thesis
    using h a b
      threshold_gate [where x_id = 0 and gx = 1 and y_id = 0 and gy = 1 and z_id = 0
        and nb = 1 and input = zero_logits and nc = 1 and thr = "Fin (1/2)" and netW = 416
        and netH = 416 and sxy = "Fin 1" and anch = prior10 and msk = mask0 and st = st0]
      threshold_gate [where x_id = 0 and gx = 1 and y_id = 0 and gy = 1 and z_id = 0
        and nb = 1 and input = zero_logits and nc = 1 and thr = "Fin 1" and netW = 416
        and netH = 416 and sxy = "Fin 1" and anch = prior10 and msk = mask0 and st = st0]
    by (simp add: Let_def st0_def zero_logits_def)
qed

text \<open>
  Claim C2 as stated says that a cell whose objectness equals the threshold is
  excluded. Here the objectness equals the threshold \<open>0.5\<close> and the cell is emitted:
  the counter goes from 0 to 1.
\<close>

theorem threshold_equal_counterexample:
  "sigmoidGPU (zero_logits (chan_index 1 1 1 0 0 0 4)) = Fin (1/2)
   \<and> countData st0 = 0
   \<and> countData (gpuYoloLayer zero_logits (Fin (1/2)) 416 416 1 1 1 1 (Fin 1) prior10 mask0
                  0 0 0 st0) = 1"
  by (simp add: gpuYoloLayer_def Let_def emit_def sigmoid_zero less_f32_def st0_def
        zero_logits_def)

subsection \<open>The softmax of the region kernel\<close>

text \<open>
  The first loop of \<^verbatim>\<open>softmaxGPU\<close> reads each logit into \<^verbatim>\<open>int val\<close>, so what the second
  loop subtracts is the greatest logit truncated towards zero: for the logits \<open>0.5\<close> and
  \<open>0.7\<close> it is \<open>0\<close>, not \<open>0.7\<close>.
\<close>

lemma softmax_largest_truncates:
  "two_class_logits (class_index 0 1 0 2 0) = Fin (1/2)
   \<and> two_class_logits (class_index 0 1 0 2 1) = Fin (7/10)
   \<and> softmax_largest two_class_logits 0 1 0 2 = Fin 0"
  by (simp add: softmax_largest_def largest_step_def class_index_def Let_def
        trunc_real_def f32_of_int_def less_f32_def upt_rec two_class_logits_def)

text \<open>
  What the truncation leaves intact and what it breaks. When every class logit of the cell
  is finite and inside the range of an \<^verbatim>\<open>int\<close>, the value subtracted is an integer \<open>L\<close> with
  \<open>x j - L < 1\<close> for every logit, no exponential overflows, and the common factor
  \<open>exp (- L)\<close> cancels in the quotient: the probabilities stored are those of the
  mathematical softmax. The offsets of the classes are supposed distinct, as they are
  whenever the tensor is addressed without wrap-around.
\<close>

lemma trunc_real_bounds:
  assumes "\<bar>r\<bar> < 2 ^ 31"
  shows "- (2 ^ 31) \<le> trunc_real r" "trunc_real r \<le> 2 ^ 31 - 1"
    "r < real_of_int (trunc_real r) + 1" "\<bar>real_of_int (trunc_real r)\<bar> < 2 ^ 31"
proof -
  show "- (2 ^ 31) \<le> trunc_real r" using assms unfolding trunc_real_def
    by (auto simp: le_floor_iff le_ceiling_iff)
  show "trunc_real r \<le> 2 ^ 31 - 1" using assms unfolding trunc_real_def
    by (auto simp: floor_le_iff ceiling_le_iff)
  show "r < real_of_int (trunc_real r) + 1" unfolding trunc_real_def
    by (auto; linarith)
  show "\<bar>real_of_int (trunc_real r)\<bar> < 2 ^ 31" using assms unfolding trunc_real_def
    by (auto; linarith)
qed


lemma f32_range_Fin: "\<bar>r\<bar> < 2 ^ 33 \<Longrightarrow> f32_range r = Fin r"
  by (simp add: f32_range_def F32_OVERFLOW_def abs_less_iff)

lemma largest_fold:
  assumes fin: "\<And>j. j < n \<Longrightarrow> input (idx j) = Fin (x j)"
    and rng: "\<And>j. j < n \<Longrightarrow> \<bar>x j\<bar> < 2 ^ 31"
  shows "m < n \<Longrightarrow>
    \<exists>M. fold (largest_step input idx) [0 ..< Suc m] NInf = Fin (real_of_int M)
       \<and> (\<forall>j\<le>m. trunc_real (x j) \<le> M) \<and> (\<exists>k\<le>m. M = trunc_real (x k))"
proof (induction m)
  case 0
  then have "int_of_f32 (input (idx 0)) = trunc_real (x 0)"
    using fin [of 0] trunc_real_bounds(1,2) [OF rng [of 0]] by simp
  then show ?case
    by (simp add: largest_step_def Let_def f32_of_int_def less_f32_def)
next
  case (Suc m)
  then have "m < n" by simp
  from Suc.IH [OF this] obtain M
    where f: "fold (largest_step input idx) [0 ..< Suc m] NInf = Fin (real_of_int M)"
      and ub: "\<forall>j\<le>m. trunc_real (x j) \<le> M" and at: "\<exists>k\<le>m. M = trunc_real (x k)"
    by blast
  have v: "int_of_f32 (input (idx (Suc m))) = trunc_real (x (Suc m))"
    using fin [OF Suc.prems] trunc_real_bounds(1,2) [OF rng [OF Suc.prems]] by simp
  have step: "fold (largest_step input idx) [0 ..< Suc (Suc m)] NInf
      = largest_step input idx (Suc m) (Fin (real_of_int M))"
    using f by simp
  show ?case
  proof (cases "M < trunc_real (x (Suc m))")
    case True
    then have "fold (largest_step input idx) [0 ..< Suc (Suc m)] NInf
        = Fin (real_of_int (trunc_real (x (Suc m))))"
      unfolding step by (simp add: largest_step_def Let_def v f32_of_int_def less_f32_def)
    moreover have "\<forall>j\<le>Suc m. trunc_real (x j) \<le> trunc_real (x (Suc m))"
      using ub True by (auto simp: le_Suc_eq)
    ultimately show ?thesis by blast
  next
    case False
    then have "fold (largest_step input idx) [0 ..< Suc (Suc m)] NInf = Fin (real_of_int M)"
      unfolding step by (simp add: largest_step_def Let_def v f32_of_int_def less_f32_def)
    moreover have "\<forall>j\<le>Suc m. trunc_real (x j) \<le> M"
      using ub False by (auto simp: le_Suc_eq)
    moreover have "\<exists>k\<le>Suc m. M = trunc_real (x k)" using at by (auto simp: le_Suc_eq)
    ultimately show ?thesis by blast
  qed
qed

lemma exp_term:
  assumes "\<bar>a\<bar> < 2 ^ 31" "\<bar>L\<bar> < 2 ^ 31" "a < L + 1"
  shows "expf (Fin a / Fin 1 - Fin L / Fin 1) = Fin (exp (a - L))"
proof -
  have "exp (a - L) \<le> exp 1" using assms(3) by simp
  also have "exp (1::real) \<le> 3" by (rule exp_le)
  finally have "\<bar>exp (a - L)\<bar> < 2 ^ 33" by simp
  moreover have "\<bar>a - L\<bar> < 2 ^ 33" using assms(1,2) by simp
  moreover have "\<bar>a\<bar> < 2 ^ 33" "\<bar>L\<bar> < 2 ^ 33" using assms(1,2) by simp_all
  ultimately show ?thesis
    by (simp add: f32_ops f32_range_Fin)
qed


lemma exp_fold:
  assumes inj: "inj_on idx {..<n}"
    and e: "\<And>j. j < n \<Longrightarrow> expf (input (idx j) / temp - largest / temp) = Fin (t j)"
    and t: "\<And>j. j < n \<Longrightarrow> 0 < t j \<and> t j \<le> 3"
    and n: "n < 2 ^ 32"
  shows "m \<le> n \<Longrightarrow>
    fst (fold (exp_step input idx temp largest) [0 ..< m] (Fin 0, scratch)) = Fin (\<Sum>j<m. t j)
    \<and> (\<forall>j<m. snd (fold (exp_step input idx temp largest) [0 ..< m] (Fin 0, scratch)) (idx j)
                 = Fin (t j))"
proof (induction m)
  case 0
  then show ?case by simp
next
  case (Suc m)
  let ?acc = "fold (exp_step input idx temp largest) [0 ..< m] (Fin 0, scratch)"
  from Suc have mn: "m < n" and IH: "fst ?acc = Fin (\<Sum>j<m. t j)"
    "\<forall>j<m. snd ?acc (idx j) = Fin (t j)" by simp_all
  have s: "fold (exp_step input idx temp largest) [0 ..< Suc m] (Fin 0, scratch)
           = (fst ?acc + Fin (t m), (snd ?acc)(idx m := Fin (t m)))"
    using e [OF mn] by (simp add: exp_step_def Let_def)
  have "(\<Sum>j<m. t j) \<le> (\<Sum>j<m. 3)" using t mn by (intro sum_mono) auto
  then have b1: "(\<Sum>j<m. t j) \<le> 3 * real m" by simp
  have b0: "0 \<le> (\<Sum>j<m. t j)" using t mn by (intro sum_nonneg) (auto simp: less_imp_le)
  from mn n have "m < 2 ^ 32" by simp
  then have "real m < 2 ^ 32" by simp
  with b1 b0 t [OF mn] have "\<bar>(\<Sum>j<m. t j) + t m\<bar> < 2 ^ 35" by simp
  then have "f32_range ((\<Sum>j<m. t j) + t m) = Fin ((\<Sum>j<m. t j) + t m)"
    by (simp add: f32_range_def F32_OVERFLOW_def abs_less_iff)
  then have a: "fst ?acc + Fin (t m) = Fin (\<Sum>j<Suc m. t j)"
    using IH(1) by (simp add: f32_ops)
  have b: "((snd ?acc)(idx m := Fin (t m))) (idx j) = Fin (t j)" if "j < Suc m" for j
  proof (cases "j = m")
    case True
    then show ?thesis by simp
  next
    case False
    with that have jm: "j < m" by simp
    with mn have "idx j \<noteq> idx m" using inj False by (auto simp: inj_on_def)
    with IH(2) jm show ?thesis by simp
  qed
  show ?case unfolding s using a b by simp
qed

lemma norm_fold:
  assumes inj: "inj_on idx {..<n}"
  shows "m \<le> n \<Longrightarrow> i < n \<Longrightarrow>
    fold (norm_step idx s) [0 ..< m] buf (idx i) = (if i < m then buf (idx i) / s else buf (idx i))"
proof (induction m)
  case 0
  then show ?case by simp
next
  case (Suc m)
  then have mn: "m < n" by simp
  have d: "idx i \<noteq> idx m" if "i \<noteq> m"
    using inj that mn Suc.prems(2) by (auto simp: inj_on_def)
  from Suc show ?case
    using d by (auto simp: norm_step_def less_Suc_eq)
qed


lemma softmax_real_shift:
  "exp (x i - L) / (\<Sum>j<n. exp (x j - L)) = softmax_real x n i"
proof -
  have "(\<Sum>j<n. exp (x j - L)) = (\<Sum>j<n. exp (x j)) / exp L"
    by (simp add: exp_diff sum_divide_distrib)
  then show ?thesis by (simp add: softmax_real_def exp_diff)
qed

lemma softmaxGPU_exact:
  fixes nc :: uint
  assumes inj: "inj_on (class_index bb ngc z nc) {..<unat nc}"
    and fin: "\<And>j. j < unat nc \<Longrightarrow> input (class_index bb ngc z nc j) = Fin (x j)"
    and rng: "\<And>j. j < unat nc \<Longrightarrow> \<bar>x j\<bar> < 2 ^ 31"
    and i: "i < unat nc"
  shows "softmaxGPU input bb ngc z nc 1 scratch (class_index bb ngc z nc i)
           = Fin (softmax_real x (unat nc) i)"
proof -
  let ?n = "unat nc" and ?idx = "class_index bb ngc z nc"
  from i obtain m where m: "?n = Suc m" by (cases "unat nc") simp_all
  then have mn: "m < ?n" by simp
  from largest_fold [of ?n input ?idx x m, OF fin rng mn] obtain M
    where lg: "fold (largest_step input ?idx) [0 ..< Suc m] NInf = Fin (real_of_int M)"
      and ub: "\<forall>j\<le>m. trunc_real (x j) \<le> M" and at: "\<exists>k\<le>m. M = trunc_real (x k)"
    by blast
  define L where "L = real_of_int M"
  have largest: "softmax_largest input bb ngc z nc = Fin L"
    using lg by (simp add: softmax_largest_def m L_def)
  from at obtain k where "k \<le> m" and kM: "M = trunc_real (x k)" by blast
  then have k: "k < ?n" "M = trunc_real (x k)" using m by simp_all
  have Lb: "\<bar>L\<bar> < 2 ^ 31"
    unfolding L_def k(2) by (rule trunc_real_bounds(4) [OF rng [OF k(1)]])
  have lt: "x j < L + 1" if "j < ?n" for j
  proof -
    from that m have "j \<le> m" by simp
    with ub have "trunc_real (x j) \<le> M" by simp
    then have "real_of_int (trunc_real (x j)) \<le> L" by (simp add: L_def)
    with trunc_real_bounds(3) [OF rng [OF that]] show ?thesis by linarith
  qed
  define t where "t j = exp (x j - L)" for j
  have e: "expf (input (?idx j) / Fin 1 - Fin L / Fin 1) = Fin (t j)" if "j < ?n" for j
    unfolding t_def fin [OF that] by (rule exp_term [OF rng [OF that] Lb lt [OF that]])
  have tb: "0 < t j \<and> t j \<le> 3" if "j < ?n" for j
  proof -
    have "exp (x j - L) \<le> exp 1" using lt [OF that] by simp
    also have "exp (1::real) \<le> 3" by (rule exp_le)
    finally show ?thesis by (simp add: t_def)
  qed
  have n32: "?n < 2 ^ 32" using unsigned_less [of nc] by simp
  let ?se = "fold (exp_step input ?idx (Fin 1) (Fin L)) [0 ..< ?n] (Fin 0, scratch)"
  from exp_fold [where idx = ?idx and n = ?n and input = input and temp = "Fin 1"
      and largest = "Fin L" and t = t and m = ?n and scratch = scratch, OF inj e tb n32]
  have se: "fst ?se = Fin (\<Sum>j<?n. t j)" "snd ?se (?idx i) = Fin (t i)"
    using i by simp_all
  have pos: "0 < (\<Sum>j<?n. t j)"
    using tb i by (intro sum_pos2 [of _ i]) (auto simp: less_imp_le)
  have "t i \<le> (\<Sum>j<?n. t j)"
    using tb i by (intro member_le_sum) (auto simp: less_imp_le)
  with pos tb [OF i] have q: "\<bar>t i / (\<Sum>j<?n. t j)\<bar> < 2 ^ 33"
    by (simp add: abs_less_iff divide_less_eq)
  have "softmaxGPU input bb ngc z nc 1 scratch (?idx i)
          = fold (norm_step ?idx (fst ?se)) [0 ..< ?n] (snd ?se) (?idx i)"
    by (simp add: softmaxGPU_def Let_def largest one_f32_def)
  also have "\<dots> = snd ?se (?idx i) / fst ?se"
    using norm_fold [where idx = ?idx and n = ?n and m = ?n and i = i and s = "fst ?se"
        and buf = "snd ?se", OF inj] i by simp
  also have "\<dots> = Fin (t i / (\<Sum>j<?n. t j))"
    unfolding se using pos q by (simp add: f32_ops f32_range_Fin)
  also have "t i / (\<Sum>j<?n. t j) = softmax_real x ?n i"
    unfolding t_def by (rule softmax_real_shift)
  finally show ?thesis .
qed

text \<open>The two logits \<open>0.5\<close> and \<open>0.7\<close> of the example above: the second probability.\<close>

lemma softmaxGPU_exact_example:
  "softmaxGPU two_class_logits 0 1 0 2 1 zero_buffer (class_index 0 1 0 2 1)
     = Fin (softmax_real two_logits 2 1)"
proof -
  have u: "unat (2::uint) = 2" by simp
  have inj: "inj_on (class_index 0 1 0 2) {..<unat (2::uint)}"
    unfolding u by (auto simp: inj_on_def class_index_def less_2_cases_iff)
  have fin: "two_class_logits (class_index 0 1 0 2 j) = Fin (two_logits j)"
    if "j < unat (2::uint)" for j
    using that unfolding u
    by (auto simp: class_index_def two_class_logits_def two_logits_def less_2_cases_iff)
  have rng: "\<bar>two_logits j\<bar> < 2 ^ 31" for j by (simp add: two_logits_def)
  have "softmaxGPU two_class_logits 0 1 0 2 1 zero_buffer (class_index 0 1 0 2 1)
     = Fin (softmax_real two_logits (unat (2::uint)) 1)"
    using inj fin rng
    by (intro softmaxGPU_exact [where x = two_logits and input = two_class_logits]) simp_all
  then show ?thesis by simp
qed

lemma exp_large_overflow:
  assumes "200 \<le> (x::real)"
  shows "F32_OVERFLOW \<le> exp x"
proof -
  have "F32_OVERFLOW \<le> exp 200" by (rule exp_200_overflow)
  also have "exp 200 \<le> exp x" using assms by simp
  finally show ?thesis .
qed

text \<open>
  Claim C5 says that the class probabilities of the region kernel are the softmax of the
  class logits, stabilised by subtracting the greatest logit of the cell. What
  \<^verbatim>\<open>softmaxGPU\<close> subtracts is the greatest logit converted to \<^verbatim>\<open>int\<close>, and outside the
  range of an \<^verbatim>\<open>int\<close> the conversion saturates: the subtraction no longer bounds the
  exponent. A cell whose only class logit is \<open>3 * 10^9\<close> has the softmax probability 1;
  the kernel subtracts \<open>2^31 - 1\<close>, the exponential and the sum are infinite, the
  probability stored is NaN, and the detection is emitted with the score 1 and the
  class \<open>-1\<close>.
\<close>

theorem softmax_saturated:
  "huge_logit (class_index 0 1 0 1 0) = Fin (huge_logits 0)
   \<and> softmax_real huge_logits 1 0 = 1
   \<and> softmax_largest huge_logit 0 1 0 1 = Fin 2147483647
   \<and> softmaxGPU huge_logit 0 1 0 1 1 zero_buffer (class_index 0 1 0 1 0) = NaN
   \<and> d_scores (snd (gpuRegionLayer huge_logit (Fin (1/2)) 416 416 1 1 1 1 region_prior10
                      0 0 0 (zero_buffer, st0))) 0 = Fin 1
   \<and> d_classes (snd (gpuRegionLayer huge_logit (Fin (1/2)) 416 416 1 1 1 1 region_prior10
                       0 0 0 (zero_buffer, st0))) 0 = - 1"
proof -
  have a: "huge_logit (class_index 0 1 0 1 0) = Fin (huge_logits 0)"
    by (simp add: class_index_def huge_logit_def huge_logits_def)
  have b: "softmax_real huge_logits 1 0 = 1"
    by (simp add: softmax_real_def)
  have c: "softmax_largest huge_logit 0 1 0 1 = Fin 2147483647"
    by (simp add: softmax_largest_def largest_step_def class_index_def Let_def trunc_real_def
          f32_of_int_def less_f32_def huge_logit_def)
  have d: "softmaxGPU huge_logit 0 1 0 1 1 zero_buffer = zero_buffer(5 := NaN)"
    using exp_large_overflow [of 852516353]
    by (simp add: softmaxGPU_def c exp_step_def norm_step_def class_index_def Let_def
          huge_logit_def f32_ops f32_range_def)
  have e: "sigmoidGPU (huge_logit (chan_index 1 1 1 0 0 0 4)) = Fin (1/2)"
    by (simp add: chan_index_def huge_logit_def sigmoid_zero)
  have f: "class_scan (\<lambda>i. (zero_buffer(5 := NaN)) (chan_index 1 1 1 0 0 0 (5 + i))) 1
             = (Fin 0, - 1)"
    by (simp add: class_scan_def class_step_def chan_index_def less_f32_def)
  have g: "snd (gpuRegionLayer huge_logit (Fin (1/2)) 416 416 1 1 1 1 region_prior10
                  0 0 0 (zero_buffer, st0))
           = emit 0 (Fin (1/2)) (Fin 0) (- 1)
               ((Fin (1/2) + f32_of_uint 0) * f32_of_uint 416 / f32_of_uint 1)
               ((Fin (1/2) + f32_of_uint 0) * f32_of_uint 416 / f32_of_uint 1)
               (expf (Fin 0) * Fin 10 * f32_of_uint 416 / f32_of_uint 1)
               (expf (Fin 0) * Fin 10 * f32_of_uint 416 / f32_of_uint 1)
               (st0\<lparr>countData := 1\<rparr>)"
    using e f
    by (simp add: gpuRegionLayer_def Let_def d less_f32_def st0_def region_prior10_def
          chan_index_def huge_logit_def sigmoid_zero)
  have h: "d_scores (snd (gpuRegionLayer huge_logit (Fin (1/2)) 416 416 1 1 1 1 region_prior10
                      0 0 0 (zero_buffer, st0))) 0 = Fin 1"
    unfolding g by (simp add: emit_def f32_ops f32_range_def F32_OVERFLOW_def)
  have i: "d_classes (snd (gpuRegionLayer huge_logit (Fin (1/2)) 416 416 1 1 1 1 region_prior10
                       0 0 0 (zero_buffer, st0))) 0 = - 1"
    unfolding g by (simp add: emit_def)
  have "softmaxGPU huge_logit 0 1 0 1 1 zero_buffer (class_index 0 1 0 1 0) = NaN"
    unfolding d by (simp add: class_index_def)
  with a b c h i show ?thesis by simp
qed

subsection \<open>The emitted record\<close>

text \<open>
  Claim C6, as the kernels have it. For every surviving detection, in both kernels, the
  slot reserved is the old counter and at that slot: \<^verbatim>\<open>d_indexes\<close> receives the slot
  number, \<^verbatim>\<open>d_scores\<close> receives \<open>objectness * maxProb + 1\<close>, \<^verbatim>\<open>d_boxes\<close> receives the four
  corners, and \<^verbatim>\<open>d_classes\<close> receives \<^verbatim>\<open>maxIndex\<close>. When some class probability compares
  greater than \<open>0.0\<close>, \<^verbatim>\<open>maxProb\<close> is the greatest class probability and \<^verbatim>\<open>maxIndex\<close> the
  first class that has it; when none does, \<^verbatim>\<open>maxProb\<close> is \<open>0.0\<close> and \<^verbatim>\<open>maxIndex\<close> is \<open>-1\<close>
  (\<open>best_class\<close>). The class probabilities are the sigmoids of the class logits in
  \<^verbatim>\<open>gpuYoloLayer\<close> and the values that \<^verbatim>\<open>softmaxGPU\<close> stores in \<^verbatim>\<open>gpuRegionLayer\<close>, which
  also leaves them in its scratch buffer; these are the softmax of the class logits when
  the logits are finite, inside the range of an \<^verbatim>\<open>int\<close>, and stored at distinct offsets.
\<close>

theorem emitted_record:
  assumes "x_id < gx" "y_id < gy" "z_id < nb"
    and "\<not> sigmoidGPU (input (chan_index gx gy nc x_id y_id z_id 4)) < thr"
    and "unat nc \<le> 2 ^ 31"
  shows "(let t = (\<lambda>k. input (chan_index gx gy nc x_id y_id z_id k));
             objectness = sigmoidGPU (t 4);
             slot = countData st;
             st' = gpuYoloLayer input thr netW netH gx gy nc nb sxy anch msk x_id y_id z_id st;
             prob = (\<lambda>c. sigmoidGPU (t (5 + c)));
             maxProb = fst (class_scan prob nc);
             maxIndex = snd (class_scan prob nc);
             beta = Fin (- (1/2)) * (sxy - 1);
             x = (sigmoidGPU (t 0) * sxy + beta + f32_of_uint x_id)
                   * f32_of_uint netW / f32_of_uint gx;
             y = (sigmoidGPU (t 1) * sxy + beta + f32_of_uint y_id)
                   * f32_of_uint netH / f32_of_uint gy;
             w = expf (t 2) * anch (msk z_id * 2);
             h = expf (t 3) * anch (msk z_id * 2 + 1);
             rst' = gpuRegionLayer input thr netW netH gx gy nc nb ranch x_id y_id z_id
                      (softmax, st);
             rprob = (\<lambda>c. softmaxGPU input (y_id * gx + x_id) (gx * gy) z_id nc 1 softmax
                           (chan_index gx gy nc x_id y_id z_id (5 + c)));
             rmaxProb = fst (class_scan rprob nc);
             rmaxIndex = snd (class_scan rprob nc);
             rx = (sigmoidGPU (t 0) + f32_of_uint x_id) * f32_of_uint netW / f32_of_uint gx;
             ry = (sigmoidGPU (t 1) + f32_of_uint y_id) * f32_of_uint netH / f32_of_uint gy;
             rw = expf (t 2) * ranch (z_id * 2) * f32_of_uint netW / f32_of_uint gx;
             rh = expf (t 3) * ranch (z_id * 2 + 1) * f32_of_uint netH / f32_of_uint gy
         in (d_indexes st' slot = slot
             \<and> d_scores st' slot = objectness * maxProb + 1
             \<and> d_boxes st' (slot * 4 + 0) = x - Fin (1/2) * w
             \<and> d_boxes st' (slot * 4 + 1) = y - Fin (1/2) * h
             \<and> d_boxes st' (slot * 4 + 2) = x + Fin (1/2) * w
             \<and> d_boxes st' (slot * 4 + 3) = y + Fin (1/2) * h
             \<and> d_classes st' slot = maxIndex
             \<and> best_class prob nc maxProb maxIndex)
          \<and> (d_indexes (snd rst') slot = slot
             \<and> d_scores (snd rst') slot = objectness * rmaxProb + 1
             \<and> d_boxes (snd rst') (slot * 4 + 0) = rx - Fin (1/2) * rw
             \<and> d_boxes (snd rst') (slot * 4 + 1) = ry - Fin (1/2) * rh
             \<and> d_boxes (snd rst') (slot * 4 + 2) = rx + Fin (1/2) * rw
             \<and> d_boxes (snd rst') (slot * 4 + 3) = ry + Fin (1/2) * rh
             \<and> d_classes (snd rst') slot = rmaxIndex
             \<and> best_class rprob nc rmaxProb rmaxIndex
             \<and> fst rst' = softmaxGPU input (y_id * gx + x_id) (gx * gy) z_id nc 1 softmax))
    \<and> (inj_on (class_index (y_id * gx + x_id) (gx * gy) z_id nc) {..<unat nc}
         \<and> (\<forall>j<unat nc. input (class_index (y_id * gx + x_id) (gx * gy) z_id nc j) = Fin (x j)
                          \<and> \<bar>x j\<bar> < 2 ^ 31)
        \<longrightarrow> (\<forall>j<unat nc.
               softmaxGPU input (y_id * gx + x_id) (gx * gy) z_id nc 1 softmax
                 (chan_index gx gy nc x_id y_id z_id (5 + of_nat j))
               = Fin (softmax_real x (unat nc) j)))"
    (is "?A \<and> ?B")
proof (rule conjI)
  from assms have r: "\<not> gx \<le> x_id" "\<not> gy \<le> y_id" "\<not> nb \<le> z_id"
    by (simp_all add: not_le)
  show "?A"
    using r assms(4) class_scan_best [OF assms(5)]
    by (simp add: gpuYoloLayer_def gpuRegionLayer_def Let_def emit_def)
next
  show "?B"
  proof (intro impI allI)
    fix j
    assume h: "inj_on (class_index (y_id * gx + x_id) (gx * gy) z_id nc) {..<unat nc}
         \<and> (\<forall>j<unat nc. input (class_index (y_id * gx + x_id) (gx * gy) z_id nc j) = Fin (x j)
                          \<and> \<bar>x j\<bar> < 2 ^ 31)"
      and j: "j < unat nc"
    have c: "chan_index gx gy nc x_id y_id z_id (5 + of_nat j)
               = class_index (y_id * gx + x_id) (gx * gy) z_id nc j"
      by (simp add: chan_index_def class_index_def)
    from h j show "softmaxGPU input (y_id * gx + x_id) (gx * gy) z_id nc 1 softmax
                 (chan_index gx gy nc x_id y_id z_id (5 + of_nat j))
               = Fin (softmax_real x (unat nc) j)"
      unfolding c by (intro softmaxGPU_exact [where x = x and input = input]) simp_all
  qed
qed

theorem emitted_record_witness:
  "(0::uint) < 1 \<and> \<not> sigmoidGPU (Fin 0) < Fin (1/2) \<and> unat (1::uint) \<le> 2 ^ 31
   \<and> d_scores (gpuYoloLayer zero_logits (Fin (1/2)) 416 416 1 1 1 1 (Fin 1) prior10
                mask0 0 0 0 st0) 0
       = sigmoidGPU (Fin 0) * fst (class_scan (\<lambda>c. sigmoidGPU (Fin 0)) 1) + 1
   \<and> best_class (\<lambda>c. sigmoidGPU (Fin 0)) 1
        (fst (class_scan (\<lambda>c. sigmoidGPU (Fin 0)) 1))
        (snd (class_scan (\<lambda>c. sigmoidGPU (Fin 0)) 1))
   \<and> d_indexes (snd (gpuRegionLayer zero_logits (Fin (1/2)) 416 416 1 1 1 1 region_prior10 0 0 0
        (zero_buffer, st0))) 0 = 0
   \<and> softmaxGPU two_class_logits 0 1 0 2 1 zero_buffer (chan_index 1 1 2 0 0 0 6)
       = Fin (softmax_real two_logits 2 1)"
proof -
  have h: "(0::uint) < 1" by simp
  have g: "\<not> sigmoidGPU (Fin 0) < Fin (1/2)"
    by (simp add: sigmoid_zero less_f32_def)
  have n: "unat (1::uint) \<le> 2 ^ 31" by simp
  have first: "(0::uint) < 1 \<and> \<not> sigmoidGPU (Fin 0) < Fin (1/2) \<and> unat (1::uint) \<le> 2 ^ 31
   \<and> d_scores (gpuYoloLayer zero_logits (Fin (1/2)) 416 416 1 1 1 1 (Fin 1) prior10
                mask0 0 0 0 st0) 0
       = sigmoidGPU (Fin 0) * fst (class_scan (\<lambda>c. sigmoidGPU (Fin 0)) 1) + 1
   \<and> best_class (\<lambda>c. sigmoidGPU (Fin 0)) 1
        (fst (class_scan (\<lambda>c. sigmoidGPU (Fin 0)) 1))
        (snd (class_scan (\<lambda>c. sigmoidGPU (Fin 0)) 1))
   \<and> d_indexes (snd (gpuRegionLayer zero_logits (Fin (1/2)) 416 416 1 1 1 1 region_prior10 0 0 0
        (zero_buffer, st0))) 0 = 0"
    using h g n emitted_record [where x_id = 0 and gx = 1 and y_id = 0 and gy = 1 and z_id = 0
        and nb = 1 and input = zero_logits and nc = 1 and thr = "Fin (1/2)" and netW = 416
        and netH = 416 and sxy = "Fin 1" and anch = prior10 and msk = mask0 and st = st0
        and ranch = region_prior10 and softmax = zero_buffer, THEN conjunct1]
    by (simp add: Let_def st0_def zero_logits_def)
  have g2: "\<not> sigmoidGPU (two_class_logits (chan_index 1 1 2 0 0 0 4)) < Fin (1/2)"
    by (simp add: chan_index_def two_class_logits_def sigmoid_zero less_f32_def)
  have n2: "unat (2::uint) \<le> 2 ^ 31" by simp
  have u: "unat (2::uint) = 2" by simp
  have hyp: "inj_on (class_index (0 * 1 + 0) (1 * 1) 0 2) {..<unat (2::uint)}
     \<and> (\<forall>j<unat (2::uint).
           two_class_logits (class_index (0 * 1 + 0) (1 * 1) 0 2 j) = Fin (two_logits j)
           \<and> \<bar>two_logits j\<bar> < 2 ^ 31)"
    unfolding u
    by (auto simp: inj_on_def class_index_def less_2_cases_iff two_class_logits_def
          two_logits_def)
  from emitted_record [where x_id = 0 and gx = 1 and y_id = 0 and gy = 1 and z_id = 0
        and nb = 1 and input = two_class_logits and nc = 2 and thr = "Fin (1/2)"
        and softmax = zero_buffer and x = two_logits, OF h h h g2 n2, THEN conjunct2,
        THEN mp, OF hyp]
  have "\<forall>j<unat (2::uint).
          softmaxGPU two_class_logits (0 * 1 + 0) (1 * 1) 0 2 1 zero_buffer
            (chan_index 1 1 2 0 0 0 (5 + of_nat j))
          = Fin (softmax_real two_logits (unat (2::uint)) j)" .
  then have "softmaxGPU two_class_logits (0 * 1 + 0) (1 * 1) 0 2 1 zero_buffer
            (chan_index 1 1 2 0 0 0 (5 + of_nat 1))
          = Fin (softmax_real two_logits (unat (2::uint)) 1)"
    unfolding u by (rule allE [where x = 1]) simp
  then have second: "softmaxGPU two_class_logits 0 1 0 2 1 zero_buffer (chan_index 1 1 2 0 0 0 6)
       = Fin (softmax_real two_logits 2 1)"
    by simp
  from first second show ?thesis by simp
qed

text \<open>
  Claim C6 as stated says that the classes array always receives the index of the
  greatest class probability. With two classes whose logits are both \<open>-200\<close>, both
  probabilities are \<open>1 / (1 + \<infinity>) = 0\<close>: class 0 holds the greatest probability, but
  it does not compare greater than the initial \<^verbatim>\<open>maxProb\<close>, and the record is written with
  the class \<open>-1\<close> and the score \<open>objectness * 0 + 1 = 1\<close>.
\<close>

theorem emitted_class_counterexample:
  "sigmoidGPU (cold_two_class_logits (chan_index 1 1 2 0 0 0 5)) = Fin 0
   \<and> sigmoidGPU (cold_two_class_logits (chan_index 1 1 2 0 0 0 6)) = Fin 0
   \<and> countData (gpuYoloLayer cold_two_class_logits (Fin (1/2)) 416 416 1 1 2 1 (Fin 1)
                  prior10 mask0 0 0 0 st0) = 1
   \<and> d_classes (gpuYoloLayer cold_two_class_logits (Fin (1/2)) 416 416 1 1 2 1 (Fin 1)
                  prior10 mask0 0 0 0 st0) 0 = - 1
   \<and> d_scores (gpuYoloLayer cold_two_class_logits (Fin (1/2)) 416 416 1 1 2 1 (Fin 1)
                 prior10 mask0 0 0 0 st0) 0 = Fin 1"
  by (simp add: gpuYoloLayer_def Let_def emit_def st0_def chan_index_def sigmoid_zero
        sigmoid_underflow less_f32_def class_scan_def class_step_def cold_two_class_logits_def
        upt_rec f32_ops f32_range_def F32_OVERFLOW_def)

subsection \<open>The range of the class index\<close>

text \<open>
  Claim C10, as the kernels have it. In both kernels, when the class count is at most
  \<open>2^31\<close>, the class index of every emitted detection is \<open>-1\<close> or lies between \<open>0\<close>
  and the class count minus one, and it is \<open>-1\<close> exactly when no class probability
  compares greater than \<open>0.0\<close>.
\<close>

theorem class_index_range:
  assumes "x_id < gx" "y_id < gy" "z_id < nb"
    and "\<not> sigmoidGPU (input (chan_index gx gy nc x_id y_id z_id 4)) < thr"
    and "unat nc \<le> 2 ^ 31"
  shows "let t = (\<lambda>k. input (chan_index gx gy nc x_id y_id z_id k));
             st' = gpuYoloLayer input thr netW netH gx gy nc nb sxy anch msk x_id y_id z_id st;
             rst' = gpuRegionLayer input thr netW netH gx gy nc nb ranch x_id y_id z_id
                      (softmax, st);
             prob = (\<lambda>c. sigmoidGPU (t (5 + c)));
             rprob = (\<lambda>c. fst rst' (chan_index gx gy nc x_id y_id z_id (5 + c)));
             cls = d_classes st' (countData st);
             rcls = d_classes (snd rst') (countData st)
         in (cls = - 1 \<or> (0 \<le> cls \<and> cls < int (unat nc)))
          \<and> (cls = - 1 \<longleftrightarrow> (\<forall>c<nc. \<not> Fin 0 < prob c))
          \<and> (rcls = - 1 \<or> (0 \<le> rcls \<and> rcls < int (unat nc)))
          \<and> (rcls = - 1 \<longleftrightarrow> (\<forall>c<nc. \<not> Fin 0 < rprob c))"
proof -
  have key: "(snd (class_scan p nc) = - 1
               \<or> (0 \<le> snd (class_scan p nc) \<and> snd (class_scan p nc) < int (unat nc)))
        \<and> (snd (class_scan p nc) = - 1 \<longleftrightarrow> (\<forall>c<nc. \<not> Fin 0 < p c))" for p
  proof -
    consider (none) "snd (class_scan p nc) = - 1" "\<forall>c<nc. \<not> Fin 0 < p c"
      | (some) c where "c < nc" "snd (class_scan p nc) = int (unat c)" "Fin 0 < p c"
      using class_scan_result [OF assms(5), of p] by blast
    then show ?thesis
    proof cases
      case none
      then show ?thesis by simp
    next
      case some
      from some(1) have "unat c < unat nc" by (simp add: word_less_nat_alt)
      then have a: "snd (class_scan p nc) < int (unat nc)" "0 \<le> snd (class_scan p nc)"
        unfolding some(2) by linarith+
      then have b: "snd (class_scan p nc) \<noteq> - 1" by linarith
      from some(1,3) have c: "\<not> (\<forall>c<nc. \<not> Fin 0 < p c)" by blast
      from a b c show ?thesis by blast
    qed
  qed
  from assms have r: "\<not> gx \<le> x_id" "\<not> gy \<le> y_id" "\<not> nb \<le> z_id"
    by (simp_all add: not_le)
  show ?thesis
    using r assms(4)
      key [of "\<lambda>c. sigmoidGPU (input (chan_index gx gy nc x_id y_id z_id (5 + c)))"]
      key [of "\<lambda>c. softmaxGPU input (y_id * gx + x_id) (gx * gy) z_id nc 1 softmax
                   (chan_index gx gy nc x_id y_id z_id (5 + c))"]
    by (auto simp add: gpuYoloLayer_def gpuRegionLayer_def Let_def emit_def)
qed

theorem class_index_range_witness:
  "(0::uint) < 1 \<and> \<not> sigmoidGPU (Fin 0) < Fin (1/2) \<and> unat (1::uint) \<le> 2 ^ 31
   \<and> 0 \<le> d_classes (gpuYoloLayer zero_logits (Fin (1/2)) 416 416 1 1 1 1 (Fin 1)
                      prior10 mask0 0 0 0 st0) 0
   \<and> d_classes (gpuYoloLayer zero_logits (Fin (1/2)) 416 416 1 1 1 1 (Fin 1)
                 prior10 mask0 0 0 0 st0) 0 < 1"
proof -
  have h: "(0::uint) < 1" by simp
  have g: "\<not> sigmoidGPU (Fin 0) < Fin (1/2)"
    by (simp add: sigmoid_zero less_f32_def)
  have n: "unat (1::uint) \<le> 2 ^ 31" by simp
  have p: "Fin 0 < sigmoidGPU (Fin 0)" by (simp add: sigmoid_zero less_f32_def)
  have q: "\<not> (\<forall>c<(1::uint). \<not> Fin 0 < sigmoidGPU (Fin 0))" using p h by blast
  show ?thesis
    using h g n q class_index_range [where x_id = 0 and gx = 1 and y_id = 0 and gy = 1
        and z_id = 0 and nb = 1 and input = zero_logits and nc = 1 and thr = "Fin (1/2)"
        and netW = 416 and netH = 416 and sxy = "Fin 1" and anch = prior10
        and msk = mask0 and st = st0 and ranch = region_prior10 and softmax = zero_buffer]
    by (auto simp add: Let_def st0_def zero_logits_def)
qed

text \<open>
  Claim C10 as stated says that \<open>-1\<close> is never written when there is at least one
  class. With one class whose logit is \<open>-200\<close>, \<^verbatim>\<open>__expf(200)\<close> is infinite, the class
  probability is \<open>1 / (1 + \<infinity>) = 0\<close>, which is not greater than the initial \<^verbatim>\<open>maxProb\<close>,
  and the detection is emitted with class \<open>-1\<close>.
\<close>

theorem class_index_counterexample:
  "countData st0 = 0
   \<and> countData (gpuYoloLayer cold_class_logits (Fin (1/2)) 416 416 1 1 1 1 (Fin 1) prior10
                  mask0 0 0 0 st0) = 1
   \<and> d_classes (gpuYoloLayer cold_class_logits (Fin (1/2)) 416 416 1 1 1 1 (Fin 1) prior10
                  mask0 0 0 0 st0) 0 = - 1"
  by (simp add: gpuYoloLayer_def Let_def emit_def st0_def chan_index_def sigmoid_zero
        sigmoid_underflow less_f32_def class_scan_def class_step_def cold_class_logits_def)

section \<open>Properties of parseConfigFile\<close>

lemma ebind_Inr [simp]: "ebind (Inr x) f = f x"
  by (simp add: ebind_def)

lemma ebind_Inl [simp]: "ebind (Inl e) f = Inl e"
  by (simp add: ebind_def)

lemma ebind_eq_Inr: "ebind m f = Inr r \<longleftrightarrow> (\<exists>x. m = Inr x \<and> f x = Inr r)"
  by (cases m) simp_all

lemma insert_all_Nil [simp]: "insert_all b [] = b"
  by (simp add: insert_all_def)

lemma insert_all_Cons [simp]:
  "insert_all b (p # ps) = insert_all (block_insert b (fst p) (snd p)) ps"
  by (simp add: insert_all_def)



















section \<open>Properties of buildYoloNetwork\<close>

subsection \<open>Back-references\<close>

lemma uint_word_of_int_32_pos:
  "0 \<le> k \<Longrightarrow> k < 2 ^ 32 \<Longrightarrow> uint (word_of_int k :: 32 word) = k"
  by (simp add: uint_word_of_int)

lemma uint_word_of_int_32_neg:
  assumes "- (2 ^ 32) \<le> k" "k < 0"
  shows "uint (word_of_int k :: 32 word) = k + 2 ^ 32"
proof -
  have "uint (word_of_int k :: 32 word) = k mod 2 ^ 32" by (simp add: uint_word_of_int)
  also have "\<dots> = (k + 2 ^ 32) mod 2 ^ 32" by simp
  also have "\<dots> = k + 2 ^ 32" using assms by (intro mod_pos_pos_trivial) simp_all
  finally show ?thesis .
qed

lemma unat_less_iff_uint: "unat (w :: 32 word) < n \<longleftrightarrow> uint w < int n"
proof -
  have "unat w < n \<longleftrightarrow> int (unat w) < int n" by (simp only: of_nat_less_iff)
  then show ?thesis by simp
qed

text \<open>
  Claim C3, as the builder has it. At a back-reference block of position \<open>i\<close> (below
  \<open>2^31\<close>, with no more outputs than blocks before it), a strictly positive \<open>from\<close>
  is first replaced by \<open>from - i + 1\<close>; a \<open>from\<close> of zero or less is taken as it is.
  With \<open>T = i + from - 1\<close> the index referred to, the three assertions pass exactly when
  \<open>0 \<le> T\<close>, \<open>T < i - 2\<close> (the position \<open>T + 1\<close> is less than \<open>i - 1\<close>) and the output
  \<open>i - 2\<close> of the preceding block exists; then \<open>T\<close> is in bounds and is the index used.
  Otherwise the build stops on a failed assertion: nothing is clamped.
\<close>

theorem back_reference_iff:
  assumes i: "unat i < 2 ^ 31" and sz: "size_outputs \<le> unat i"
  shows "back_reference i from size_outputs =
     (let I = int (unat i); F = sint from;
          rel = (if 0 < F then F - I + 1 else F);
          T = I + rel - 1
      in if 0 \<le> T \<and> T < I - 2 \<and> I - 2 < int size_outputs
         then Inr (word_of_int T) else Inl AssertFail)"
proof -
  define I where "I = int (unat i)"
  define F where "F = sint from"
  define rel where "rel = (if 0 < F then F - I + 1 else F)"
  define T where "T = I + rel - 1"
  have "int (unat i) < int (2 ^ 31)" using i by (simp only: of_nat_less_iff)
  then have I: "0 \<le> I" "I < 2 ^ 31" by (simp_all add: I_def)
  have F: "- (2 ^ 31) \<le> F" "F < 2 ^ 31"
    using sint_ge [of "from"] sint_lt [of "from"] by (simp_all add: F_def)
  have wi: "i = word_of_int I" by (simp add: I_def)
  have wf: "from = word_of_int F" by (simp add: F_def)
  have norm: "normalize_from i from = word_of_int rel"
  proof (cases "0 < F")
    case True
    then have "0 <s from" by (simp add: word_sless_alt F_def)
    then have "normalize_from i from = from - i + 1" by (simp add: normalize_from_def)
    also have "\<dots> = word_of_int (F - I + 1)" by (simp add: F_def I_def)
    finally show ?thesis using True by (simp add: rel_def)
  next
    case False
    then have "\<not> 0 <s from" by (simp add: word_sless_alt F_def)
    then show ?thesis using False by (simp add: normalize_from_def rel_def F_def)
  qed
  have t: "i + normalize_from i from - 1 = word_of_int T"
    unfolding norm T_def by (simp add: I_def)
  have Tr: "- (2 ^ 31) - 1 \<le> T" "T < 2 ^ 32"
    using I F by (auto simp: T_def rel_def)
  have ut: "uint (word_of_int T :: 32 word) = (if 0 \<le> T then T else T + 2 ^ 32)"
    using Tr by (auto simp: uint_word_of_int_32_pos uint_word_of_int_32_neg)
  have i2: "uint (i - 2) = (if 2 \<le> I then I - 2 else I - 2 + 2 ^ 32)"
  proof -
    have e: "i - 2 = word_of_int (I - 2)" by (simp add: I_def)
    show ?thesis
    proof (cases "2 \<le> I")
      case True
      with I have "0 \<le> I - 2" "I - 2 < 2 ^ 32" by simp_all
      from uint_word_of_int_32_pos [OF this] True show ?thesis by (simp only: e if_True)
    next
      case False
      with I have "- (2 ^ 32) \<le> I - 2" "I - 2 < 0" by simp_all
      from uint_word_of_int_32_neg [OF this] False show ?thesis by (simp only: e if_False)
    qed
  qed
  have szI: "int size_outputs \<le> I" using sz unfolding I_def by (simp only: of_nat_le_iff)
  have c1: "unat (i - 2) < size_outputs \<longleftrightarrow> 2 \<le> I \<and> I - 2 < int size_outputs"
    unfolding unat_less_iff_uint i2 using I szI by auto
  have c2: "unat (word_of_int T :: 32 word) < size_outputs \<longleftrightarrow>
              (if 0 \<le> T then T else T + 2 ^ 32) < int size_outputs"
    unfolding unat_less_iff_uint ut ..
  have c3: "(word_of_int T :: 32 word) < i - 2 \<longleftrightarrow>
              (if 0 \<le> T then T else T + 2 ^ 32) < (if 2 \<le> I then I - 2 else I - 2 + 2 ^ 32)"
    unfolding word_less_def ut i2 ..
  have "back_reference i from size_outputs =
         (if 0 \<le> T \<and> T < I - 2 \<and> I - 2 < int size_outputs
          then Inr (word_of_int T) else Inl AssertFail)"
    unfolding back_reference_def Let_def t c1 c2 c3
    using I Tr szI by (cases "0 \<le> T"; cases "2 \<le> I") simp_all
  then show ?thesis
    by (simp add: Let_def I_def F_def rel_def T_def)
qed


theorem back_reference_witness:
  "unat (5 :: uint) < 2 ^ 31 \<and> 4 \<le> unat (5 :: uint) \<and> back_reference 5 (- 3) 4 = Inr 1"
proof -
  have a: "unat (5 :: uint) < 2 ^ 31" by simp
  have b: "4 \<le> unat (5 :: uint)" by simp
  from back_reference_iff [OF a b, of "- 3"] a b show ?thesis
    by (simp add: Let_def)
qed

text \<open>
  Claim C3 as stated normalises every non-negative \<open>from\<close>. At position 5 with four
  outputs, \<open>from = 0\<close> would then refer to index 0, which the stated rule accepts;
  the builder leaves 0 as it is and refuses. (And at position 4 with only two
  outputs, \<open>from = -3\<close> refers to index 0 but the output of the preceding block is
  missing, and the builder refuses.)
\<close>

theorem back_reference_counterexample:
  "spec_back_reference_ok 5 0 4 \<and> back_reference 5 0 4 = Inl AssertFail
   \<and> spec_back_reference_ok 4 (- 3) 2 \<and> back_reference 4 (- 3) 2 = Inl AssertFail"
  by (simp add: spec_back_reference_ok_def back_reference_def normalize_from_def Let_def
        word_sless_alt)

subsection \<open>What a turn of the loop changes\<close>

lemma push_output_Inr:
  "push_output eng u out st = Inr st' \<Longrightarrow>
     \<exists>t. fst out = Some t
        \<and> st' = st\<lparr> previous := t,
                     channels := (if u then getNumChannels eng t else channels st),
                     tensorOutputs := tensorOutputs st @ [t],
                     network := snd out \<rparr>"
  by (auto simp: push_output_def split: option.splits)

lemma push_output_frame: "push_output eng u out st = Inr st' \<Longrightarrow> frame st st'"
  by (auto simp: frame_def dest!: push_output_Inr)

lemma push_output_frame_w:
  "push_output eng u out (st\<lparr>weightPtr := w\<rparr>) = Inr st' \<Longrightarrow> frame st st'"
  by (auto simp: frame_def dest!: push_output_Inr)

lemma block_at_type: "block_at blk ''type'' = Inr ty \<longleftrightarrow> map_of blk ''type'' = Some ty"
  by (auto simp: block_at_def split: option.splits)

lemma build_dispatch_frame:
  assumes d: "build_dispatch eng y i blk st ty = Inr st'"
    and nd: "ty \<noteq> ''yolo''" "ty \<noteq> ''region''"
  shows "frame st st'"
proof -
  have "P1 \<or> P2 \<or> P3 \<or> P4 \<or> P5 \<or> P6 \<or> P7 \<or> P8 \<or> P9 \<or> P10 \<or> P11 \<or> P12
        \<or> (\<not> P1 \<and> \<not> P2 \<and> \<not> P3 \<and> \<not> P4 \<and> \<not> P5 \<and> \<not> P6 \<and> \<not> P7 \<and> \<not> P8 \<and> \<not> P9 \<and> \<not> P10
            \<and> \<not> P11 \<and> \<not> P12)"
    for P1 P2 P3 P4 P5 P6 P7 P8 P9 P10 P11 P12 :: bool
    by blast
  from this [of "ty = ''net''" "ty = ''convolutional''" "ty = ''implicit_add''"
      "ty = ''implicit_mul''" "ty = ''shift_channels''" "ty = ''control_channels''"
      "ty = ''dropout''" "ty = ''shortcut''" "ty = ''route''" "ty = ''upsample''"
      "ty = ''maxpool''" "ty = ''reorg''"]
  consider "ty = ''net''" | "ty = ''convolutional''" | "ty = ''implicit_add''"
    | "ty = ''implicit_mul''" | "ty = ''shift_channels''" | "ty = ''control_channels''"
    | "ty = ''dropout''" | "ty = ''shortcut''" | "ty = ''route''" | "ty = ''upsample''"
    | "ty = ''maxpool''" | "ty = ''reorg''"
    | "ty \<noteq> ''net''" "ty \<noteq> ''convolutional''" "ty \<noteq> ''implicit_add''"
      "ty \<noteq> ''implicit_mul''" "ty \<noteq> ''shift_channels''" "ty \<noteq> ''control_channels''"
      "ty \<noteq> ''dropout''" "ty \<noteq> ''shortcut''" "ty \<noteq> ''route''" "ty \<noteq> ''upsample''"
      "ty \<noteq> ''maxpool''" "ty \<noteq> ''reorg''"
    by (elim disjE conjE)
  then show ?thesis
  proof cases
    case 1
    with d show ?thesis by (simp add: build_dispatch_def frame_def)
  next
    case 2
    with d show ?thesis
      by (auto simp: build_dispatch_def Let_def ebind_eq_Inr dest: push_output_frame_w)
  next
    case 3
    with d show ?thesis
      by (auto simp: build_dispatch_def Let_def ebind_eq_Inr dest: push_output_frame_w)
  next
    case 4
    with d show ?thesis
      by (auto simp: build_dispatch_def Let_def ebind_eq_Inr dest: push_output_frame_w)
  next
    case 5
    with d show ?thesis
      by (auto simp: build_dispatch_def Let_def ebind_eq_Inr dest: push_output_frame)
  next
    case 6
    with d show ?thesis
      by (auto simp: build_dispatch_def Let_def ebind_eq_Inr dest: push_output_frame)
  next
    case 7
    with d show ?thesis by (auto simp: build_dispatch_def frame_def)
  next
    case 8
    with d show ?thesis
      by (auto simp: build_dispatch_def Let_def ebind_eq_Inr dest: push_output_frame)
  next
    case 9
    with d show ?thesis
      by (auto simp: build_dispatch_def Let_def ebind_eq_Inr dest: push_output_frame)
  next
    case 10
    with d show ?thesis
      by (auto simp: build_dispatch_def Let_def ebind_eq_Inr dest: push_output_frame)
  next
    case 11
    with d show ?thesis
      by (auto simp: build_dispatch_def Let_def ebind_eq_Inr dest: push_output_frame)
  next
    case 12
    with d show ?thesis
      by (auto simp: build_dispatch_def Let_def ebind_eq_Inr dest: push_output_frame split: if_splits)
  next
    case 13
    with d nd show ?thesis by (simp add: build_dispatch_def)
  qed
qed


lemma build_dispatch_detection:
  assumes d: "build_dispatch eng y i blk st ty = Inr st'"
    and ty: "ty = ''yolo'' \<or> ty = ''region''"
  shows "inputYoloCount st' = inputYoloCount st + 1
       \<and> unat (inputYoloCount st) < length (yoloTensors st)
       \<and> length (yoloTensors st') = length (yoloTensors st)
       \<and> length (tensorOutputs st') = Suc (length (tensorOutputs st))
       \<and> modelType st' \<noteq> - 1"
  using ty
proof
  assume "ty = ''yolo''"
  with d show ?thesis
    by (auto simp: build_dispatch_def Let_def split: if_splits)
next
  assume "ty = ''region''"
  with d show ?thesis
    by (auto simp: build_dispatch_def Let_def split: if_splits)
qed

lemma build_block_Inr:
  "build_block eng y i blk st = Inr st' \<Longrightarrow>
     \<exists>ty. map_of blk ''type'' = Some ty \<and> build_dispatch eng y i blk st ty = Inr st'"
  by (auto simp: build_block_def ebind_eq_Inr block_at_type split: if_splits)

lemma build_block_step:
  assumes "build_block eng y i blk st = Inr st'"
  shows "inputYoloCount st' = inputYoloCount st + (if is_detection blk then 1 else 0)"
    and "unat (inputYoloCount st) \<le> length (yoloTensors st)
         \<Longrightarrow> unat (inputYoloCount st') \<le> length (yoloTensors st')"
    and "length (tensorOutputs st') \<le> Suc (length (tensorOutputs st))"
proof -
  from build_block_Inr [OF assms] obtain ty
    where ty: "map_of blk ''type'' = Some ty" and d: "build_dispatch eng y i blk st ty = Inr st'"
    by blast
  show "inputYoloCount st' = inputYoloCount st + (if is_detection blk then 1 else 0)"
  proof (cases "is_detection blk")
    case True
    with ty have "ty = ''yolo'' \<or> ty = ''region''" by (auto simp: is_detection_def)
    from build_dispatch_detection [OF d this] True show ?thesis by simp
  next
    case False
    with ty have "ty \<noteq> ''yolo''" "ty \<noteq> ''region''" by (auto simp: is_detection_def)
    from build_dispatch_frame [OF d this] False show ?thesis by (simp add: frame_def)
  qed
  show "unat (inputYoloCount st') \<le> length (yoloTensors st')"
    if "unat (inputYoloCount st) \<le> length (yoloTensors st)"
  proof (cases "ty = ''yolo'' \<or> ty = ''region''")
    case True
    from build_dispatch_detection [OF d True]
    have a: "inputYoloCount st' = inputYoloCount st + 1"
      and b: "unat (inputYoloCount st) < length (yoloTensors st)"
      and c: "length (yoloTensors st') = length (yoloTensors st)" by simp_all
    have "unat (inputYoloCount st + 1) \<le> unat (inputYoloCount st) + 1"
      by (simp add: unat_word_ariths)
    with a b c show ?thesis by simp
  next
    case False
    then have "ty \<noteq> ''yolo''" "ty \<noteq> ''region''" by simp_all
    from build_dispatch_frame [OF d this] that show ?thesis by (simp add: frame_def)
  qed
  show "length (tensorOutputs st') \<le> Suc (length (tensorOutputs st))"
  proof (cases "ty = ''yolo'' \<or> ty = ''region''")
    case True
    from build_dispatch_detection [OF d True] show ?thesis by simp
  next
    case False
    then have "ty \<noteq> ''yolo''" "ty \<noteq> ''region''" by simp_all
    from build_dispatch_frame [OF d this] show ?thesis by (simp add: frame_def)
  qed
qed

lemma build_loop_inv:
  assumes "build_loop eng y i blks st = Inr st'"
  shows "inputYoloCount st' = inputYoloCount st + of_nat (length (filter is_detection blks))
       \<and> (unat (inputYoloCount st) \<le> length (yoloTensors st)
            \<longrightarrow> unat (inputYoloCount st') \<le> length (yoloTensors st'))
       \<and> length (tensorOutputs st') \<le> length (tensorOutputs st) + length blks"
  using assms
proof (induction blks arbitrary: i st)
  case Nil
  then show ?case by simp
next
  case (Cons blk blks)
  from Cons.prems obtain st1 where b: "build_block eng y (of_nat i) blk st = Inr st1"
    and l: "build_loop eng y (Suc i) blks st1 = Inr st'"
    by (auto simp: ebind_eq_Inr)
  from Cons.IH [OF l] build_block_step [OF b] show ?case
    by (auto simp: algebra_simps)
qed

text \<open>
  The loop over a list of blocks is the loop over a prefix followed by the loop over the
  rest, and after \<open>i\<close> turns from the initial state \<^verbatim>\<open>tensorOutputs\<close> holds at most \<open>i\<close>
  tensors: at a block of position \<open>i\<close> the size of \<^verbatim>\<open>tensorOutputs\<close> is at most \<open>i\<close>.
  A \<^verbatim>\<open>shortcut\<close>, \<^verbatim>\<open>shift_channels\<close> or \<^verbatim>\<open>control_channels\<close> block is built only if its
  back-reference passes \<open>back_reference\<close>.
\<close>

lemma build_loop_append:
  "build_loop eng y i (xs @ ys) st
     = ebind (build_loop eng y i xs st) (build_loop eng y (i + length xs) ys)"
proof (induction xs arbitrary: i st)
  case Nil
  then show ?case by simp
next
  case (Cons x xs)
  show ?case
  proof (cases "build_block eng y (of_nat i) x st")
    case (Inl e)
    then show ?thesis by simp
  next
    case (Inr st1)
    then show ?thesis using Cons.IH [of "Suc i" st1] by simp
  qed
qed

lemma outputs_le_position:
  assumes "build_loop eng y 0 blks (init_state y data net) = Inr st"
  shows "length (tensorOutputs st) \<le> length blks"
  using build_loop_inv [OF assms] by (simp add: init_state_def)

lemma shortcut_needs_back_reference:
  assumes "build_dispatch eng y i blk st ''shortcut'' = Inr st'"
  shows "\<exists>s from idx. block_at blk ''from'' = Inr s \<and> stoi s = Inr from
           \<and> back_reference i from (length (tensorOutputs st)) = Inr idx"
  using assms by (auto simp: build_dispatch_def ebind_eq_Inr)

lemma channels_needs_back_reference:
  assumes "build_dispatch eng y i blk st ty = Inr st'"
    and "ty = ''shift_channels'' \<or> ty = ''control_channels''"
  shows "\<exists>s from idx. block_at blk ''from'' = Inr s \<and> stoi s = Inr from
           \<and> back_reference i from (length (tensorOutputs st)) = Inr idx"
  using assms(2)
proof
  assume "ty = ''shift_channels''"
  with assms(1) show ?thesis by (auto simp: build_dispatch_def ebind_eq_Inr)
next
  assume "ty = ''control_channels''"
  with assms(1) show ?thesis by (auto simp: build_dispatch_def ebind_eq_Inr)
qed

subsection \<open>The loop and the checks after it\<close>

lemma buildYoloNetwork_loop:
  assumes "fst (addInput eng net) = Some data" "0 < nbDims eng data"
  shows "buildYoloNetwork eng y weights net =
           ebind (build_loop eng y 0 (m_ConfigBlocks y) (init_state y data (snd (addInput eng net))))
             (post_loop eng y weights)"
  using assms by (simp add: buildYoloNetwork_def)

lemma buildYoloNetwork_Inr:
  assumes "buildYoloNetwork eng y weights net = Inr r"
  shows "\<exists>data st. fst (addInput eng net) = Some data \<and> 0 < nbDims eng data
            \<and> build_loop eng y 0 (m_ConfigBlocks y) (init_state y data (snd (addInput eng net)))
                = Inr st
            \<and> post_loop eng y weights st = Inr r"
  using assms
  by (auto simp: buildYoloNetwork_def ebind_eq_Inr split: option.splits if_splits)

lemma post_loop_Inr:
  assumes "post_loop eng y weights st = Inr r"
  shows "word_of_nat (length weights) = weightPtr st" "m_YoloCount y = inputYoloCount st"
    "weightPtr (fst r) = weightPtr st"
  using assms
  by (auto simp: post_loop_def ebind_eq_Inr assert_that_def split: if_splits
           dest!: push_output_Inr)

lemma loop_from_init:
  assumes "build_loop eng y 0 (m_ConfigBlocks y) (init_state y data n) = Inr st"
  shows "inputYoloCount st = of_nat (length (filter is_detection (m_ConfigBlocks y)))"
    and "unat (inputYoloCount st) \<le> length (yoloTensors st)"
proof -
  from build_loop_inv [OF assms]
  have a: "inputYoloCount st = inputYoloCount (init_state y data n)
              + of_nat (length (filter is_detection (m_ConfigBlocks y)))"
    and b: "unat (inputYoloCount (init_state y data n)) \<le> length (yoloTensors (init_state y data n))
              \<longrightarrow> unat (inputYoloCount st) \<le> length (yoloTensors st)"
    by blast+
  from a show "inputYoloCount st = of_nat (length (filter is_detection (m_ConfigBlocks y)))"
    by (simp add: init_state_def)
  from b show "unat (inputYoloCount st) \<le> length (yoloTensors st)"
    by (simp add: init_state_def)
qed

lemma sint_eq_length:
  assumes "n < 2 ^ 31"
  shows "(word_of_nat n :: 32 word) = w \<longleftrightarrow> sint w = int n"
proof
  assume "(word_of_nat n :: 32 word) = w"
  then show "sint w = int n" using assms sint_of_nat_uint by blast
next
  assume "sint w = int n"
  then have "word_of_int (sint w) = (word_of_int (int n) :: 32 word)" by simp
  then show "(word_of_nat n :: 32 word) = w" by simp
qed

lemmas build_eval = build_block_def build_dispatch_def block_at_def push_output_def
  init_state_def eng0_def yolo1_def scale0_def Let_def assert_that_def has_key_def

lemma eng0_input: "fst (addInput eng0 ()) = Some 0" "0 < nbDims eng0 0"
  by (simp_all add: eng0_def)

lemma loop_yolo_conv:
  "\<exists>st. build_loop eng0 yolo_conv 0 (m_ConfigBlocks yolo_conv)
           (init_state yolo_conv 0 (snd (addInput eng0 ()))) = Inr st
        \<and> weightPtr st = 1"
  by (simp add: build_eval yolo_conv_def)

subsection \<open>The weight cursor\<close>

text \<open>
  Claim C4. Once the loop over the blocks has finished, with a weight buffer of fewer
  than \<open>2^31\<close> scalars: if \<^verbatim>\<open>weightPtr\<close> differs from the length of the buffer, in
  either direction, the build stops with the "unused weights" error; and a build that
  succeeds has \<^verbatim>\<open>weightPtr\<close> equal to the length of the buffer.
\<close>

theorem weight_cursor_check:
  assumes "length weights < 2 ^ 31"
    and "fst (addInput eng net) = Some data" and "0 < nbDims eng data"
    and "build_loop eng y 0 (m_ConfigBlocks y) (init_state y data (snd (addInput eng net)))
           = Inr st"
  shows "(sint (weightPtr st) \<noteq> int (length weights)
            \<longrightarrow> buildYoloNetwork eng y weights net = Inl UnusedWeights)
       \<and> (\<forall>r. buildYoloNetwork eng y weights net = Inr r
            \<longrightarrow> sint (weightPtr st) = int (length weights) \<and> weightPtr (fst r) = weightPtr st)"
proof -
  have b: "buildYoloNetwork eng y weights net = post_loop eng y weights st"
    using buildYoloNetwork_loop [OF assms(2,3)] assms(4) by simp
  have "sint (weightPtr st) \<noteq> int (length weights) \<longrightarrow> post_loop eng y weights st = Inl UnusedWeights"
    using sint_eq_length [OF assms(1), of "weightPtr st"] by (simp add: post_loop_def)
  moreover have "\<forall>r. post_loop eng y weights st = Inr r
            \<longrightarrow> sint (weightPtr st) = int (length weights) \<and> weightPtr (fst r) = weightPtr st"
    using sint_eq_length [OF assms(1), of "weightPtr st"] post_loop_Inr(1,3) by blast
  ultimately show ?thesis unfolding b by blast
qed

theorem weight_cursor_check_witness:
  "length ([] :: f32 list) < 2 ^ 31
   \<and> buildYoloNetwork eng0 yolo_conv [] () = Inl UnusedWeights
   \<and> (\<exists>r. buildYoloNetwork eng0 yolo_conv [Fin 0] () = Inr r \<and> sint (weightPtr (fst r)) = 1)"
proof -
  from loop_yolo_conv obtain st
    where l: "build_loop eng0 yolo_conv 0 (m_ConfigBlocks yolo_conv)
                (init_state yolo_conv 0 (snd (addInput eng0 ()))) = Inr st"
      and w: "weightPtr st = 1" by blast
  have a: "length ([] :: f32 list) < 2 ^ 31" by simp
  have b: "length [Fin 0] < 2 ^ 31" by simp
  from weight_cursor_check [OF a eng0_input l] w
  have c: "buildYoloNetwork eng0 yolo_conv [] () = Inl UnusedWeights" by simp
  have "\<exists>r. buildYoloNetwork eng0 yolo_conv [Fin 0] () = Inr r"
    by (simp add: buildYoloNetwork_def post_loop_def output_size_def output_size_step_def
          build_eval yolo_conv_def)
  then obtain r where r: "buildYoloNetwork eng0 yolo_conv [Fin 0] () = Inr r" by blast
  from weight_cursor_check [OF b eng0_input l] r
  have "sint (weightPtr (fst r)) = 1" by simp
  with a c r show ?thesis by blast
qed

subsection \<open>The count of detection blocks\<close>

text \<open>
  The errors of the loop: no block stops the build with the "Error in yolo cfg file"
  report, and no block changes the number of entries of \<^verbatim>\<open>m_YoloTensors\<close>.
\<close>

lemma ebind_eq_Inl: "ebind m f = Inl e \<longleftrightarrow> m = Inl e \<or> (\<exists>x. m = Inr x \<and> f x = Inl e)"
  by (cases m) simp_all

lemma stoi_not_cfg: "stoi s \<noteq> Inl YoloCfgError"
  by (simp add: stoi_def Let_def)

lemma push_output_not_cfg: "push_output eng u out st \<noteq> Inl YoloCfgError"
  by (simp add: push_output_def split: option.splits)

lemma back_reference_not_cfg: "back_reference i from n \<noteq> Inl YoloCfgError"
  by (simp add: back_reference_def Let_def)

lemma block_at_not_cfg: "block_at blk k \<noteq> Inl YoloCfgError"
  by (simp add: block_at_def split: option.splits)

lemma assert_that_not_cfg: "assert_that b \<noteq> Inl YoloCfgError"
  by (simp add: assert_that_def)

lemmas not_cfg = stoi_not_cfg push_output_not_cfg back_reference_not_cfg block_at_not_cfg
  assert_that_not_cfg

lemma build_dispatch_not_cfg: "build_dispatch eng y i blk st ty \<noteq> Inl YoloCfgError"
proof -
  have "P1 \<or> P2 \<or> P3 \<or> P4 \<or> P5 \<or> P6 \<or> P7 \<or> P8 \<or> P9 \<or> P10 \<or> P11 \<or> P12 \<or> P13 \<or> P14
        \<or> (\<not> P1 \<and> \<not> P2 \<and> \<not> P3 \<and> \<not> P4 \<and> \<not> P5 \<and> \<not> P6 \<and> \<not> P7 \<and> \<not> P8 \<and> \<not> P9 \<and> \<not> P10
            \<and> \<not> P11 \<and> \<not> P12 \<and> \<not> P13 \<and> \<not> P14)"
    for P1 P2 P3 P4 P5 P6 P7 P8 P9 P10 P11 P12 P13 P14 :: bool
    by blast
  from this [of "ty = ''net''" "ty = ''convolutional''" "ty = ''implicit_add''"
      "ty = ''implicit_mul''" "ty = ''shift_channels''" "ty = ''control_channels''"
      "ty = ''dropout''" "ty = ''shortcut''" "ty = ''route''" "ty = ''upsample''"
      "ty = ''maxpool''" "ty = ''reorg''" "ty = ''yolo''" "ty = ''region''"]
  consider "ty = ''net''" | "ty = ''convolutional''" | "ty = ''implicit_add''"
    | "ty = ''implicit_mul''" | "ty = ''shift_channels''" | "ty = ''control_channels''"
    | "ty = ''dropout''" | "ty = ''shortcut''" | "ty = ''route''" | "ty = ''upsample''"
    | "ty = ''maxpool''" | "ty = ''reorg''" | "ty = ''yolo''" | "ty = ''region''"
    | "ty \<noteq> ''net''" "ty \<noteq> ''convolutional''" "ty \<noteq> ''implicit_add''"
      "ty \<noteq> ''implicit_mul''" "ty \<noteq> ''shift_channels''" "ty \<noteq> ''control_channels''"
      "ty \<noteq> ''dropout''" "ty \<noteq> ''shortcut''" "ty \<noteq> ''route''" "ty \<noteq> ''upsample''"
      "ty \<noteq> ''maxpool''" "ty \<noteq> ''reorg''" "ty \<noteq> ''yolo''" "ty \<noteq> ''region''"
    by (elim disjE conjE)
  then show ?thesis
  proof cases
    case 1 then show ?thesis by (simp add: build_dispatch_def)
  next
    case 2 then show ?thesis
      by (simp add: build_dispatch_def Let_def ebind_eq_Inl not_cfg)
  next
    case 3 then show ?thesis
      by (simp add: build_dispatch_def Let_def ebind_eq_Inl not_cfg)
  next
    case 4 then show ?thesis
      by (simp add: build_dispatch_def Let_def ebind_eq_Inl not_cfg)
  next
    case 5 then show ?thesis
      by (simp add: build_dispatch_def Let_def ebind_eq_Inl not_cfg)
  next
    case 6 then show ?thesis
      by (simp add: build_dispatch_def Let_def ebind_eq_Inl not_cfg)
  next
    case 7 then show ?thesis by (simp add: build_dispatch_def)
  next
    case 8 then show ?thesis
      by (simp add: build_dispatch_def Let_def ebind_eq_Inl not_cfg)
  next
    case 9 then show ?thesis
      by (simp add: build_dispatch_def Let_def ebind_eq_Inl not_cfg)
  next
    case 10 then show ?thesis
      by (simp add: build_dispatch_def Let_def ebind_eq_Inl not_cfg)
  next
    case 11 then show ?thesis
      by (simp add: build_dispatch_def Let_def ebind_eq_Inl not_cfg)
  next
    case 12 then show ?thesis
      by (simp add: build_dispatch_def Let_def ebind_eq_Inl not_cfg)
  next
    case 13 then show ?thesis
      by (simp add: build_dispatch_def Let_def)
  next
    case 14 then show ?thesis
      by (simp add: build_dispatch_def Let_def)
  next
    case 15 then show ?thesis by (simp add: build_dispatch_def)
  qed
qed

lemma build_block_not_cfg: "build_block eng y i blk st \<noteq> Inl YoloCfgError"
  by (simp add: build_block_def ebind_eq_Inl not_cfg build_dispatch_not_cfg)

lemma build_loop_not_cfg: "build_loop eng y i blks st \<noteq> Inl YoloCfgError"
proof (induction blks arbitrary: i st)
  case Nil
  then show ?case by simp
next
  case (Cons blk blks)
  then show ?case by (simp add: ebind_eq_Inl build_block_not_cfg)
qed

lemma build_block_tensors:
  assumes "build_block eng y i blk st = Inr st'"
  shows "length (yoloTensors st') = length (yoloTensors st)"
proof -
  from build_block_Inr [OF assms] obtain ty
    where d: "build_dispatch eng y i blk st ty = Inr st'" by blast
  show ?thesis
  proof (cases "ty = ''yolo'' \<or> ty = ''region''")
    case True
    from build_dispatch_detection [OF d True] show ?thesis by simp
  next
    case False
    then have "ty \<noteq> ''yolo''" "ty \<noteq> ''region''" by simp_all
    from build_dispatch_frame [OF d this] show ?thesis by (simp add: frame_def)
  qed
qed

lemma build_loop_tensors:
  "build_loop eng y i blks st = Inr st' \<Longrightarrow> length (yoloTensors st') = length (yoloTensors st)"
proof (induction blks arbitrary: i st)
  case Nil
  then show ?case by simp
next
  case (Cons blk blks)
  from Cons.prems obtain st1 where b: "build_block eng y (of_nat i) blk st = Inr st1"
    and l: "build_loop eng y (Suc i) blks st1 = Inr st'"
    by (auto simp: ebind_eq_Inr)
  from Cons.IH [OF l] build_block_tensors [OF b] show ?case by simp
qed

lemma output_size_not_cfg: "output_size ts n \<noteq> Inl YoloCfgError"
proof (induction n)
  case 0
  then show ?case by (simp add: output_size_def)
next
  case (Suc n)
  have "output_size ts (Suc n) = ebind (output_size ts n) (output_size_step ts n)"
    by (simp add: output_size_def)
  with Suc show ?case by (simp add: ebind_eq_Inl output_size_step_def)
qed

lemma post_loop_cfg:
  assumes "post_loop eng y weights st = Inl YoloCfgError"
  shows "word_of_nat (length weights) = weightPtr st" and "m_YoloCount y \<noteq> inputYoloCount st"
proof -
  show w: "word_of_nat (length weights) = weightPtr st"
    using assms by (auto simp: post_loop_def split: if_splits)
  show "m_YoloCount y \<noteq> inputYoloCount st"
  proof
    assume "m_YoloCount y = inputYoloCount st"
    with assms w show False
      by (auto simp: post_loop_def ebind_eq_Inl not_cfg output_size_not_cfg split: if_splits)
  qed
qed

text \<open>
  Claim C8, as the builder has it. A build succeeds only if \<^verbatim>\<open>m_YoloCount\<close> equals the
  number of detection blocks (\<open>yolo\<close> or \<open>region\<close>) of the configuration. The "Error in
  yolo cfg file" report is given exactly when the loop over the blocks has finished, all
  weights are consumed and the two counts differ. When the configuration has more
  detection blocks than \<^verbatim>\<open>m_YoloTensors\<close> has entries, as with three \<open>[yolo]\<close> sections and
  two scales declared, the build still fails, but earlier and without that report.
\<close>

theorem yolo_count_check:
  "(\<forall>r. buildYoloNetwork eng y weights net = Inr r
        \<longrightarrow> m_YoloCount y = of_nat (length (filter is_detection (m_ConfigBlocks y))))
   \<and> (\<forall>data st. fst (addInput eng net) = Some data \<and> 0 < nbDims eng data
        \<and> build_loop eng y 0 (m_ConfigBlocks y) (init_state y data (snd (addInput eng net)))
            = Inr st
        \<and> word_of_nat (length weights) = weightPtr st
        \<and> m_YoloCount y \<noteq> of_nat (length (filter is_detection (m_ConfigBlocks y)))
        \<longrightarrow> buildYoloNetwork eng y weights net = Inl YoloCfgError)
   \<and> (buildYoloNetwork eng y weights net = Inl YoloCfgError
        \<longrightarrow> (\<exists>data st. fst (addInput eng net) = Some data \<and> 0 < nbDims eng data
              \<and> build_loop eng y 0 (m_ConfigBlocks y)
                    (init_state y data (snd (addInput eng net))) = Inr st
              \<and> word_of_nat (length weights) = weightPtr st
              \<and> m_YoloCount y \<noteq> of_nat (length (filter is_detection (m_ConfigBlocks y)))))
   \<and> (length (m_YoloTensors y) < length (filter is_detection (m_ConfigBlocks y))
        \<and> length (filter is_detection (m_ConfigBlocks y)) < 2 ^ 32
        \<longrightarrow> (\<exists>e. buildYoloNetwork eng y weights net = Inl e \<and> e \<noteq> YoloCfgError))"
proof (intro conjI allI impI)
  fix r assume "buildYoloNetwork eng y weights net = Inr r"
  from buildYoloNetwork_Inr [OF this] obtain data st
    where l: "build_loop eng y 0 (m_ConfigBlocks y) (init_state y data (snd (addInput eng net)))
                = Inr st"
      and p: "post_loop eng y weights st = Inr r" by blast
  from post_loop_Inr(2) [OF p] loop_from_init(1) [OF l]
  show "m_YoloCount y = of_nat (length (filter is_detection (m_ConfigBlocks y)))" by simp
next
  fix data st
  assume a: "fst (addInput eng net) = Some data \<and> 0 < nbDims eng data
        \<and> build_loop eng y 0 (m_ConfigBlocks y) (init_state y data (snd (addInput eng net)))
            = Inr st
        \<and> word_of_nat (length weights) = weightPtr st
        \<and> m_YoloCount y \<noteq> of_nat (length (filter is_detection (m_ConfigBlocks y)))"
  then have b: "buildYoloNetwork eng y weights net = post_loop eng y weights st"
    using buildYoloNetwork_loop [of eng net data y weights] by simp
  from a loop_from_init(1) [of eng y data "snd (addInput eng net)" st]
  have "m_YoloCount y \<noteq> inputYoloCount st" by simp
  with a show "buildYoloNetwork eng y weights net = Inl YoloCfgError"
    unfolding b by (simp add: post_loop_def)
next
  assume c: "buildYoloNetwork eng y weights net = Inl YoloCfgError"
  then obtain data where d: "fst (addInput eng net) = Some data"
    by (cases "fst (addInput eng net)") (simp_all add: buildYoloNetwork_def)
  with c have nb: "0 < nbDims eng data"
    by (cases "0 < nbDims eng data") (simp_all add: buildYoloNetwork_def)
  let ?loop = "build_loop eng y 0 (m_ConfigBlocks y) (init_state y data (snd (addInput eng net)))"
  from c d nb have "ebind ?loop (post_loop eng y weights) = Inl YoloCfgError"
    by (simp add: buildYoloNetwork_def)
  then obtain st where l: "?loop = Inr st" and p: "post_loop eng y weights st = Inl YoloCfgError"
    by (auto simp: ebind_eq_Inl build_loop_not_cfg)
  from post_loop_cfg [OF p] loop_from_init(1) [OF l]
  have "word_of_nat (length weights) = weightPtr st"
    "m_YoloCount y \<noteq> of_nat (length (filter is_detection (m_ConfigBlocks y)))" by simp_all
  with d nb l
  show "\<exists>data st. fst (addInput eng net) = Some data \<and> 0 < nbDims eng data
          \<and> build_loop eng y 0 (m_ConfigBlocks y)
                (init_state y data (snd (addInput eng net))) = Inr st
          \<and> word_of_nat (length weights) = weightPtr st
          \<and> m_YoloCount y \<noteq> of_nat (length (filter is_detection (m_ConfigBlocks y)))"
    by blast
next
  let ?k = "length (filter is_detection (m_ConfigBlocks y))"
  assume h: "length (m_YoloTensors y) < ?k \<and> ?k < 2 ^ 32"
  show "\<exists>e. buildYoloNetwork eng y weights net = Inl e \<and> e \<noteq> YoloCfgError"
  proof (cases "fst (addInput eng net)")
    case None
    then show ?thesis by (simp add: buildYoloNetwork_def)
  next
    case (Some data)
    show ?thesis
    proof (cases "0 < nbDims eng data")
      case False
      with Some show ?thesis by (simp add: buildYoloNetwork_def)
    next
      case True
      let ?loop = "build_loop eng y 0 (m_ConfigBlocks y)
                     (init_state y data (snd (addInput eng net)))"
      show ?thesis
      proof (cases ?loop)
        case (Inl e)
        with build_loop_not_cfg [of eng y 0 "m_ConfigBlocks y"
            "init_state y data (snd (addInput eng net))"]
        have "e \<noteq> YoloCfgError" by simp
        with Inl Some True show ?thesis by (simp add: buildYoloNetwork_def)
      next
        case (Inr st)
        from loop_from_init [OF Inr]
        have "unat (of_nat ?k :: uint) \<le> length (yoloTensors st)" by simp
        moreover from h have "unat (of_nat ?k :: uint) = ?k" by (simp add: unat_of_nat)
        moreover from build_loop_tensors [OF Inr]
        have "length (yoloTensors st) = length (m_YoloTensors y)" by (simp add: init_state_def)
        ultimately have "?k \<le> length (m_YoloTensors y)" by simp
        with h show ?thesis by simp
      qed
    qed
  qed
qed

lemma loop_two_declared:
  "\<exists>st. build_loop eng0 yolo_two_declared 0 (m_ConfigBlocks yolo_two_declared)
           (init_state yolo_two_declared 0 (snd (addInput eng0 ()))) = Inr st
        \<and> weightPtr st = 0"
  by (simp add: build_eval yolo_two_declared_def)

text \<open>
  One detection block with two scales declared reaches the report; three detection
  blocks with two scales declared fail with another error.
\<close>

theorem yolo_count_check_witness:
  "buildYoloNetwork eng0 yolo_two_declared [] () = Inl YoloCfgError
   \<and> (\<exists>e. buildYoloNetwork eng0 yolo_three_blocks [] () = Inl e \<and> e \<noteq> YoloCfgError)"
proof -
  from loop_two_declared obtain st
    where l: "build_loop eng0 yolo_two_declared 0 (m_ConfigBlocks yolo_two_declared)
                (init_state yolo_two_declared 0 (snd (addInput eng0 ()))) = Inr st"
      and w: "weightPtr st = 0" by (elim exE conjE)
  have m: "m_YoloCount yolo_two_declared
             \<noteq> of_nat (length (filter is_detection (m_ConfigBlocks yolo_two_declared)))"
    by (simp add: yolo_two_declared_def yolo1_def is_detection_def)
  have w': "word_of_nat (length ([]::f32 list)) = weightPtr st" using w by simp
  from yolo_count_check [of eng0 yolo_two_declared "[]" "()", THEN conjunct2, THEN conjunct1]
    eng0_input l w' m
  have a: "buildYoloNetwork eng0 yolo_two_declared [] () = Inl YoloCfgError" by blast
  have b: "length (m_YoloTensors yolo_three_blocks)
             < length (filter is_detection (m_ConfigBlocks yolo_three_blocks))
         \<and> length (filter is_detection (m_ConfigBlocks yolo_three_blocks)) < 2 ^ 32"
    by (simp add: yolo_three_blocks_def yolo1_def is_detection_def)
  from yolo_count_check [of eng0 yolo_three_blocks "[]" "()", THEN conjunct2, THEN conjunct2,
      THEN conjunct2] b
  have c: "\<exists>e. buildYoloNetwork eng0 yolo_three_blocks [] () = Inl e \<and> e \<noteq> YoloCfgError"
    by (rule mp)
  from a c show ?thesis by (rule conjI)
qed

text \<open>
  Claim C8 as stated says that any mismatch of the two counts aborts with the reported
  configuration error. With three \<open>[yolo]\<close> blocks and \<^verbatim>\<open>m_YoloCount = 2\<close>, the third block
  reads \<^verbatim>\<open>m_YoloTensors.at(2)\<close>, which throws \<^verbatim>\<open>std::out_of_range\<close>: the build stops there,
  before the counts are compared, and the report is not given.
\<close>

theorem yolo_count_counterexample:
  "m_YoloCount yolo_three_blocks = 2
   \<and> length (filter is_detection (m_ConfigBlocks yolo_three_blocks)) = 3
   \<and> buildYoloNetwork eng0 yolo_three_blocks [] () = Inl OutOfRange"
  by (simp add: buildYoloNetwork_def build_eval yolo_three_blocks_def is_detection_def)

subsection \<open>The top-K check\<close>

lemma sum_list_bound: "(\<forall>x\<in>set xs. x < b) \<Longrightarrow> sum_list xs \<le> length xs * (b :: nat)"
  by (induction xs) (auto simp: add_mono less_imp_le)

lemma output_size_sum:
  assumes "n \<le> length ts"
  shows "output_size ts n = Inr (of_nat (sum_list (map scale_outputs32 (take n ts))))"
  using assms
proof (induction n)
  case 0
  then show ?case by (simp add: output_size_def)
next
  case (Suc n)
  then have n: "n < length ts" by simp
  then have tk: "take (Suc n) ts = take n ts @ [ts ! n]" by (simp add: take_Suc_conv_app_nth)
  from Suc.IH n
  have ih: "output_size ts n = Inr (of_nat (sum_list (map scale_outputs32 (take n ts))))" by simp
  have uc: "(ucast (gridSizeX (ts ! n) * gridSizeY (ts ! n) * numBBoxes (ts ! n)) :: 64 word)
                   = of_nat (scale_outputs32 (ts ! n))"
    unfolding scale_outputs32_def by (metis of_nat_unat)
  have "output_size ts (Suc n) = ebind (output_size ts n) (output_size_step ts n)"
    by (simp add: output_size_def)
  also have "\<dots> = Inr (of_nat (sum_list (map scale_outputs32 (take n ts)))
                       + of_nat (scale_outputs32 (ts ! n)))"
    using n by (simp add: ih output_size_step_def uc)
  also have "\<dots> = Inr (of_nat (sum_list (map scale_outputs32 (take (Suc n) ts))))"
    by (simp add: tk)
  finally show ?case .
qed

lemma scale_outputs32_less: "scale_outputs32 t < 2 ^ 32"
  unfolding scale_outputs32_def
  using unsigned_less [of "gridSizeX t * gridSizeY t * numBBoxes t", where 'a = nat] by simp

text \<open>
  Claim C9, as the builder has it. Once the loop has finished and the checks of the
  weights, of the count of detection blocks and of the model type have passed, the
  build stops with the "topk > Number of outputs" error when the declared top-K exceeds
  the sum over all scales of the products grid-width * grid-height * anchor-count, each
  product taken modulo \<open>2^32\<close> (it is computed on \<^verbatim>\<open>uint\<close> operands before it is added to
  the 64-bit sum), and goes on to construct the decode and NMS stages when top-K is less
  than or equal to that sum.
\<close>

theorem topk_check:
  assumes "fst (addInput eng net) = Some data" and "0 < nbDims eng data"
    and "build_loop eng y 0 (m_ConfigBlocks y) (init_state y data (snd (addInput eng net)))
           = Inr st"
    and "word_of_nat (length weights) = weightPtr st"
    and "m_YoloCount y = inputYoloCount st"
    and "modelType st \<noteq> - 1"
  shows "let total = sum_list (map scale_outputs32
                       (take (unat (inputYoloCount st)) (yoloTensors st)))
         in (total < unat (m_TopK y)
               \<longrightarrow> buildYoloNetwork eng y weights net = Inl TopkError)
          \<and> (unat (m_TopK y) \<le> total
               \<longrightarrow> buildYoloNetwork eng y weights net =
                     ebind (push_output eng False
                              (yoloAndNms eng (yoloInputs st) (yoloTensors st) (of_nat total)
                                 (modelType st) (network st)) st)
                       (\<lambda>st1. Inr (st1, of_nat total)))"
proof -
  define n where "n = unat (inputYoloCount st)"
  define total where "total = sum_list (map scale_outputs32 (take n (yoloTensors st)))"
  have b: "buildYoloNetwork eng y weights net = post_loop eng y weights st"
    using buildYoloNetwork_loop [OF assms(1,2)] assms(3) by simp
  have le: "n \<le> length (yoloTensors st)"
    unfolding n_def using loop_from_init(2) [OF assms(3)] .
  have os: "output_size (yoloTensors st) n = Inr (of_nat total)"
    unfolding total_def using le by (rule output_size_sum)
  have n32: "n < 2 ^ 32"
    unfolding n_def using unsigned_less [of "inputYoloCount st", where 'a=nat] by simp
  have "\<forall>x\<in>set (map scale_outputs32 (take n (yoloTensors st))). x < 2 ^ 32"
    using scale_outputs32_less by auto
  then have "total \<le> length (map scale_outputs32 (take n (yoloTensors st))) * 2 ^ 32"
    unfolding total_def by (rule sum_list_bound)
  also have "\<dots> \<le> n * 2 ^ 32" by simp
  also from n32 have "n * (2 ^ 32 :: nat) < 2 ^ 32 * 2 ^ 32" by simp
  finally have tb: "total < 2 ^ 64" by simp
  have ut: "unat (of_nat total :: 64 word) = total"
    using tb by (simp add: unat_of_nat)
  have uk: "unat (ucast (m_TopK y) :: 64 word) = unat (m_TopK y)"
  proof -
    have "unat (m_TopK y) < 2 ^ 32" using unsigned_less [of "m_TopK y", where 'a=nat] by simp
    then have "unat (m_TopK y) < 2 ^ 64" by simp
    then show ?thesis by (simp add: unsigned_ucast_eq take_bit_nat_eq_self)
  qed
  have cmp: "(of_nat total :: 64 word) < ucast (m_TopK y) \<longleftrightarrow> total < unat (m_TopK y)"
    by (simp only: word_less_nat_alt ut uk)
  have "post_loop eng y weights st =
          (if total < unat (m_TopK y) then Inl TopkError
           else ebind (push_output eng False
                              (yoloAndNms eng (yoloInputs st) (yoloTensors st) (of_nat total)
                                 (modelType st) (network st)) st)
                       (\<lambda>st1. Inr (st1, of_nat total)))"
    using assms(4,5,6) by (simp add: post_loop_def assert_that_def os [unfolded n_def] cmp)
  then show ?thesis
    unfolding b Let_def total_def n_def by (simp add: not_less)
qed

lemma loop_yolo1:
  "\<exists>st. build_loop eng0 yolo1 0 (m_ConfigBlocks yolo1)
           (init_state yolo1 0 (snd (addInput eng0 ()))) = Inr st
        \<and> weightPtr st = 0 \<and> inputYoloCount st = 1 \<and> modelType st = 1
        \<and> map scale_outputs32 (yoloTensors st) = [507]"
  by (simp add: build_eval scale_outputs32_def)

lemma loop_topk508:
  "\<exists>st. build_loop eng0 yolo_topk508 0 (m_ConfigBlocks yolo_topk508)
           (init_state yolo_topk508 0 (snd (addInput eng0 ()))) = Inr st
        \<and> weightPtr st = 0 \<and> inputYoloCount st = 1 \<and> modelType st = 1
        \<and> map scale_outputs32 (yoloTensors st) = [507]"
  by (simp add: build_eval scale_outputs32_def yolo_topk508_def)

text \<open>
  One 13 x 13 scale of 3 anchors has 507 candidates: a top-K of 508 is refused and a
  top-K of 507 is accepted.
\<close>

theorem topk_check_witness:
  "buildYoloNetwork eng0 yolo_topk508 [] () = Inl TopkError
   \<and> (\<exists>r. buildYoloNetwork eng0 yolo1 [] () = Inr r \<and> snd r = 507)"
proof -
  have big: "buildYoloNetwork eng0 yolo_topk508 [] () = Inl TopkError"
  proof -
    from loop_topk508 obtain st
      where l: "build_loop eng0 yolo_topk508 0 (m_ConfigBlocks yolo_topk508)
                  (init_state yolo_topk508 0 (snd (addInput eng0 ()))) = Inr st"
        and w: "weightPtr st = 0" and c: "inputYoloCount st = 1" and m: "modelType st = 1"
        and t: "map scale_outputs32 (yoloTensors st) = [507]" by (elim exE conjE)
    have "map scale_outputs32 (take 1 (yoloTensors st))
            = take 1 (map scale_outputs32 (yoloTensors st))"
      by (rule take_map [symmetric])
    then have tk: "map scale_outputs32 (take 1 (yoloTensors st)) = [507]"
      unfolding t by simp
    have h4: "word_of_nat (length ([]::f32 list)) = weightPtr st" using w by simp
    have h5: "m_YoloCount yolo_topk508 = inputYoloCount st"
      using c by (simp add: yolo_topk508_def yolo1_def)
    have h6: "modelType st \<noteq> - 1" using m by simp
    have k: "unat (m_TopK yolo_topk508) = 508" by (simp add: yolo_topk508_def)
    have tot: "sum_list (map scale_outputs32 (take (unat (inputYoloCount st)) (yoloTensors st)))
                 = 507"
      unfolding c using tk by simp
    from topk_check [OF eng0_input l h4 h5 h6]
    show ?thesis unfolding Let_def tot k by simp
  qed
  have fits: "\<exists>r. buildYoloNetwork eng0 yolo1 [] () = Inr r \<and> snd r = 507"
  proof -
    from loop_yolo1 obtain st
      where l: "build_loop eng0 yolo1 0 (m_ConfigBlocks yolo1)
                  (init_state yolo1 0 (snd (addInput eng0 ()))) = Inr st"
        and w: "weightPtr st = 0" and c: "inputYoloCount st = 1" and m: "modelType st = 1"
        and t: "map scale_outputs32 (yoloTensors st) = [507]" by (elim exE conjE)
    have "map scale_outputs32 (take 1 (yoloTensors st))
            = take 1 (map scale_outputs32 (yoloTensors st))"
      by (rule take_map [symmetric])
    then have tk: "map scale_outputs32 (take 1 (yoloTensors st)) = [507]"
      unfolding t by simp
    have h4: "word_of_nat (length ([]::f32 list)) = weightPtr st" using w by simp
    have h5: "m_YoloCount yolo1 = inputYoloCount st"
      using c by (simp add: yolo1_def)
    have h6: "modelType st \<noteq> - 1" using m by simp
    have k: "unat (m_TopK yolo1) = 507" by (simp add: yolo1_def)
    have tot: "sum_list (map scale_outputs32 (take (unat (inputYoloCount st)) (yoloTensors st)))
                 = 507"
      unfolding c using tk by simp
    from topk_check [OF eng0_input l h4 h5 h6]
    have "buildYoloNetwork eng0 yolo1 [] () =
            ebind (push_output eng0 False
                     (yoloAndNms eng0 (yoloInputs st) (yoloTensors st) 507 (modelType st)
                        (network st)) st)
              (\<lambda>st1. Inr (st1, 507))"
      unfolding Let_def tot k by simp
    then show ?thesis by (simp add: push_output_def eng0_def)
  qed
  from big fits show ?thesis by (rule conjI)
qed

text \<open>
  Claim C9 as stated compares the top-K with the sum of the products themselves. A scale
  of 25414008 anchors on the 13 x 13 grid has \<open>2^32 + 56\<close> candidates, far more than a
  top-K of 57; the product computed in \<^verbatim>\<open>uint\<close> is 56, and the build stops with the
  "topk > Number of outputs" error.
\<close>

theorem topk_wrap_counterexample:
  "unat (m_TopK yolo_wrap) = 57
   \<and> scale_outputs (scale_wrap\<lparr>gridSizeX := 13, gridSizeY := 13\<rparr>) = 4294967352
   \<and> scale_outputs32 (scale_wrap\<lparr>gridSizeX := 13, gridSizeY := 13\<rparr>) = 56
   \<and> buildYoloNetwork eng0 yolo_wrap [] () = Inl TopkError"
  by (simp add: buildYoloNetwork_def build_eval post_loop_def output_size_def
        output_size_step_def yolo_wrap_def scale_wrap_def scale_outputs_def
        scale_outputs32_def)

end
